theory Spec2Isabelle
  imports Main
begin

section \<open>Python values used by the bots\<close>

text \<open>
  The four scripts (\<^verbatim>\<open>__main__.py\<close>, \<^verbatim>\<open>local.py\<close>, \<^verbatim>\<open>discord.py\<close>, \<^verbatim>\<open>slack.py\<close>) share one
  pipeline: choose a feed, fetch the first article not yet posted, generate a text, publish
  it, record the link. A Python \<^verbatim>\<open>str\<close> is a \<^typ>\<open>string\<close>; one \<^typ>\<open>char\<close> stands for
  one character, so the characters covered are those with code point below 256.

  An exception raised by the code is a value of \<open>error\<close>; a function that may raise returns
  \<open>error + 'a\<close> with \<open>Inl\<close> for the exception. An \<^verbatim>\<open>AttributeError\<close> carries the name of
  the attribute. \<open>OutsideModel\<close> is no exception of Python: it marks the one place, in
  \<open>load_history\<close>, where the run goes on with a value that the data below cannot hold.
\<close>

datatype error =
    Exception string
  | IndexError string
  | KeyError string
  | TypeError
  | AttributeError string
  | JSONDecodeError
  | OutsideModel

text \<open>\<^verbatim>\<open>str.isspace\<close> on one character: tab to carriage return, the four separators
  \<^verbatim>\<open>\x1c\<close> to \<^verbatim>\<open>\x1f\<close>, space, \<^verbatim>\<open>\x85\<close> and \<^verbatim>\<open>\xa0\<close>.\<close>

definition isspace :: "char \<Rightarrow> bool" where
  "isspace c =
     (let n = (of_char c :: nat)
      in (9 \<le> n \<and> n \<le> 13) \<or> (28 \<le> n \<and> n \<le> 32) \<or> n = 133 \<or> n = 160)"

text \<open>The line boundaries of \<^verbatim>\<open>str.splitlines\<close> other than the pair \<^verbatim>\<open>\r\n\<close>:
  \<^verbatim>\<open>\n \v \f \r \x1c \x1d \x1e \x85\<close>.\<close>

definition is_linebreak :: "char \<Rightarrow> bool" where
  "is_linebreak c =
     (let n = (of_char c :: nat)
      in (10 \<le> n \<and> n \<le> 13) \<or> (28 \<le> n \<and> n \<le> 30) \<or> n = 133)"

definition lstrip :: "string \<Rightarrow> string" where
  "lstrip s = dropWhile isspace s"

definition rstrip :: "string \<Rightarrow> string" where
  "rstrip s = rev (dropWhile isspace (rev s))"

definition strip :: "string \<Rightarrow> string" where
  "strip s = rstrip (lstrip s)"

definition startswith :: "string \<Rightarrow> string \<Rightarrow> bool" where
  "startswith s p = (take (length p) s = p)"

text \<open>\<^verbatim>\<open>s.splitlines()\<close>: \<open>cur\<close> holds the characters of the line being read, newest
  first. A boundary closes the line, empty or not; \<^verbatim>\<open>\r\n\<close> is one boundary; the end of
  the text closes a line only when that line has characters.\<close>

fun splitlines_from :: "string \<Rightarrow> string \<Rightarrow> string list" where
  "splitlines_from cur [] = (if cur = [] then [] else [rev cur])"
| "splitlines_from cur [c] =
     (if is_linebreak c then [rev cur] else [rev (c # cur)])"
| "splitlines_from cur (c # d # ds) =
     (if c = CHR 0x0D \<and> d = CHR 0x0A then rev cur # splitlines_from [] ds
      else if is_linebreak c then rev cur # splitlines_from [] (d # ds)
      else splitlines_from (c # cur) (d # ds))"

definition splitlines :: "string \<Rightarrow> string list" where
  "splitlines s = splitlines_from [] s"

text \<open>\<^verbatim>\<open>s.split(sep)\<close> for a separator of one character: every separator closes a piece,
  and the end of the text closes the last one, so the result is never empty.\<close>

fun split_sep_from :: "char \<Rightarrow> string \<Rightarrow> string \<Rightarrow> string list" where
  "split_sep_from sep cur [] = [rev cur]"
| "split_sep_from sep cur (c # cs) =
     (if c = sep then rev cur # split_sep_from sep [] cs
      else split_sep_from sep (c # cur) cs)"

definition split_sep :: "char \<Rightarrow> string \<Rightarrow> string list" where
  "split_sep sep s = split_sep_from sep [] s"

text \<open>\<^verbatim>\<open>s.split()\<close>: the maximal runs of characters that are not whitespace.\<close>

fun split_ws_from :: "string \<Rightarrow> string \<Rightarrow> string list" where
  "split_ws_from cur [] = (if cur = [] then [] else [rev cur])"
| "split_ws_from cur (c # cs) =
     (if isspace c
      then (if cur = [] then split_ws_from [] cs else rev cur # split_ws_from [] cs)
      else split_ws_from (c # cur) cs)"

definition split_ws :: "string \<Rightarrow> string list" where
  "split_ws s = split_ws_from [] s"

text \<open>\<^verbatim>\<open>xs[0]\<close> raises on the empty list.\<close>

definition first :: "'a list \<Rightarrow> error + 'a" where
  "first xs = (case xs of [] \<Rightarrow> Inl (IndexError ''list index out of range'') | x # _ \<Rightarrow> Inr x)"

text \<open>\<^verbatim>\<open>random.choice(seq)\<close> raises on the empty sequence and otherwise returns
  \<^verbatim>\<open>seq[self._randbelow(len(seq))]\<close>. The generator's draw is the parameter \<open>r\<close>, reduced
  below the length.\<close>

definition random_choice :: "nat \<Rightarrow> 'a list \<Rightarrow> error + 'a" where
  "random_choice r xs =
     (if xs = [] then Inl (IndexError ''Cannot choose from an empty sequence'')
      else Inr (xs ! (r mod length xs)))"

section \<open>Feed selector\<close>

text \<open>
  \<^verbatim>\<open>get_random_feed_url\<close> reads the whole file, splits it into lines and walks them,
  appending to \<^verbatim>\<open>valid_feeds\<close> the URL part of every line that passes
  \<^verbatim>\<open>if line and not line.startswith('#')\<close>. The functions below take the text returned by
  \<^verbatim>\<open>f.read()\<close>. In \<^verbatim>\<open>__main__.py\<close> and \<^verbatim>\<open>local.py\<close> (class \<^verbatim>\<open>RssTweetBot\<close>) the URL part
  is \<^verbatim>\<open>line.split('!')[0].strip()\<close>; in \<^verbatim>\<open>discord.py\<close> and \<^verbatim>\<open>slack.py\<close> it is
  \<^verbatim>\<open>line.split()[0].strip()\<close>.
\<close>

definition usable :: "string \<Rightarrow> bool" where
  "usable line = (line \<noteq> [] \<and> \<not> startswith line ''#'')"

fun RssTweetBot_valid_feeds :: "string list \<Rightarrow> string list \<Rightarrow> error + string list" where
  "RssTweetBot_valid_feeds valid_feeds [] = Inr valid_feeds"
| "RssTweetBot_valid_feeds valid_feeds (line # feeds) =
     (if usable line
      then (case first (split_sep (CHR ''!'') line) of
              Inl e \<Rightarrow> Inl e
            | Inr p \<Rightarrow> RssTweetBot_valid_feeds (valid_feeds @ [strip p]) feeds)
      else RssTweetBot_valid_feeds valid_feeds feeds)"

definition RssTweetBot_get_random_feed_url :: "string \<Rightarrow> nat \<Rightarrow> error + string" where
  "RssTweetBot_get_random_feed_url file_text r =
     (case RssTweetBot_valid_feeds [] (splitlines file_text) of
        Inl e \<Rightarrow> Inl e
      | Inr valid_feeds \<Rightarrow> random_choice r valid_feeds)"

fun RssDiscordBot_valid_feeds :: "string list \<Rightarrow> string list \<Rightarrow> error + string list" where
  "RssDiscordBot_valid_feeds valid_feeds [] = Inr valid_feeds"
| "RssDiscordBot_valid_feeds valid_feeds (line # feeds) =
     (if usable line
      then (case first (split_ws line) of
              Inl e \<Rightarrow> Inl e
            | Inr p \<Rightarrow> RssDiscordBot_valid_feeds (valid_feeds @ [strip p]) feeds)
      else RssDiscordBot_valid_feeds valid_feeds feeds)"

definition RssDiscordBot_get_random_feed_url :: "string \<Rightarrow> nat \<Rightarrow> error + string" where
  "RssDiscordBot_get_random_feed_url file_text r =
     (case RssDiscordBot_valid_feeds [] (splitlines file_text) of
        Inl e \<Rightarrow> Inl e
      | Inr valid_feeds \<Rightarrow> random_choice r valid_feeds)"

text \<open>\<^verbatim>\<open>slack.py\<close> repeats the selector of \<^verbatim>\<open>discord.py\<close> line for line.\<close>

definition RssSlackBot_get_random_feed_url :: "string \<Rightarrow> nat \<Rightarrow> error + string" where
  "RssSlackBot_get_random_feed_url file_text r =
     (case RssDiscordBot_valid_feeds [] (splitlines file_text) of
        Inl e \<Rightarrow> Inl e
      | Inr valid_feeds \<Rightarrow> random_choice r valid_feeds)"

text \<open>The URL part that the \<^verbatim>\<open>'!'\<close> variant keeps of a line, written without the list of
  pieces: the text before the first \<^verbatim>\<open>'!'\<close>, stripped.\<close>

definition url_part_bang :: "string \<Rightarrow> string" where
  "url_part_bang line = strip (takeWhile (\<lambda>c. c \<noteq> CHR ''!'') line)"

text \<open>The URL part that the whitespace variant keeps of a line that has a character other
  than whitespace: the first run of such characters, stripped.\<close>

definition ws_url :: "string \<Rightarrow> string" where
  "ws_url line = strip (takeWhile (\<lambda>c. \<not> isspace c) (lstrip line))"

section \<open>JSON text\<close>

text \<open>
  A value that \<^verbatim>\<open>json.load\<close> or \<^verbatim>\<open>response.json()\<close> returns. A number is kept as its
  literal; an object is the association list of its dictionary, in the order of insertion.
\<close>

datatype json =
    JNull
  | JBool bool
  | JNum string
  | JStr string
  | JArr "json list"
  | JObj "(string \<times> json) list"

text \<open>
  \<^verbatim>\<open>json.dump\<close> writes a string between double quotes with
  \<^verbatim>\<open>ensure_ascii\<close>: the quote and the backslash are escaped with a backslash, the five
  control characters with a letter, every other character outside the printable ASCII
  range as \<^verbatim>\<open>\u00XX\<close> with lower-case digits.
\<close>

definition hex_digit :: "nat \<Rightarrow> char" where
  "hex_digit n = ''0123456789abcdef'' ! n"

definition escape_char :: "char \<Rightarrow> string" where
  "escape_char c =
     (if c = CHR 0x22 then [CHR 0x5C, CHR 0x22]
      else if c = CHR 0x5C then [CHR 0x5C, CHR 0x5C]
      else if c = CHR 0x0A then [CHR 0x5C, CHR ''n'']
      else if c = CHR 0x0D then [CHR 0x5C, CHR ''r'']
      else if c = CHR 0x09 then [CHR 0x5C, CHR ''t'']
      else if c = CHR 0x0C then [CHR 0x5C, CHR ''f'']
      else if c = CHR 0x08 then [CHR 0x5C, CHR ''b'']
      else if 32 \<le> (of_char c :: nat) \<and> (of_char c :: nat) \<le> 126 then [c]
      else [CHR 0x5C, CHR ''u'', CHR ''0'', CHR ''0'',
            hex_digit (of_char c div 16), hex_digit (of_char c mod 16)])"

definition encode_string :: "string \<Rightarrow> string" where
  "encode_string s = CHR 0x22 # concat (map escape_char s) @ [CHR 0x22]"

text \<open>
  Reading: the whitespace of JSON, and the body of a string after its opening quote, up to
  the closing quote. A raw control character, an unknown escape and a malformed
  \<^verbatim>\<open>\uXXXX\<close> are errors. An escape above \<^verbatim>\<open>\u00ff\<close> names a character outside the ones
  covered here and is refused as well.
\<close>

definition json_ws :: "char \<Rightarrow> bool" where
  "json_ws c = (c = CHR '' '' \<or> c = CHR 0x09 \<or> c = CHR 0x0A \<or> c = CHR 0x0D)"

definition skip_ws :: "string \<Rightarrow> string" where
  "skip_ws s = dropWhile json_ws s"

definition hex_value :: "char \<Rightarrow> nat option" where
  "hex_value c =
     (let n = (of_char c :: nat)
      in if 48 \<le> n \<and> n \<le> 57 then Some (n - 48)
         else if 97 \<le> n \<and> n \<le> 102 then Some (n - 87)
         else if 65 \<le> n \<and> n \<le> 70 then Some (n - 55)
         else None)"

definition decode_uXXXX :: "string \<Rightarrow> char option" where
  "decode_uXXXX s =
     (case map hex_value s of
        [Some a, Some b, Some c, Some d] \<Rightarrow>
          (if a = 0 \<and> b = 0 then Some (char_of (16 * c + d)) else None)
      | _ \<Rightarrow> None)"

definition backslash :: "char \<Rightarrow> char option" where
  "backslash e =
     (if e = CHR 0x22 then Some (CHR 0x22)
      else if e = CHR 0x5C then Some (CHR 0x5C)
      else if e = CHR ''/'' then Some (CHR ''/'')
      else if e = CHR ''b'' then Some (CHR 0x08)
      else if e = CHR ''f'' then Some (CHR 0x0C)
      else if e = CHR ''n'' then Some (CHR 0x0A)
      else if e = CHR ''r'' then Some (CHR 0x0D)
      else if e = CHR ''t'' then Some (CHR 0x09)
      else None)"

definition prepend :: "char \<Rightarrow> (string \<times> string) option \<Rightarrow> (string \<times> string) option" where
  "prepend c r = (case r of None \<Rightarrow> None | Some (s, rest) \<Rightarrow> Some (c # s, rest))"

function scanstring :: "string \<Rightarrow> (string \<times> string) option" where
  "scanstring [] = None"
| "scanstring (c # cs) =
     (if c = CHR 0x22 then Some ([], cs)
      else if c = CHR 0x5C then
        (case cs of
           [] \<Rightarrow> None
         | e # es \<Rightarrow>
             if e = CHR ''u'' then
               (case decode_uXXXX (take 4 es) of
                  None \<Rightarrow> None
                | Some ch \<Rightarrow> prepend ch (scanstring (drop 4 es)))
             else
               (case backslash e of
                  None \<Rightarrow> None
                | Some ch \<Rightarrow> prepend ch (scanstring es)))
      else if (of_char c :: nat) < 32 then None
      else prepend c (scanstring cs))"
  by pat_completeness auto
termination
  by (relation "measure length") auto

text \<open>A number: an optional minus, \<^verbatim>\<open>0\<close> or digits that do not start with \<^verbatim>\<open>0\<close>, an
  optional fraction, an optional exponent. The longest such prefix is taken.\<close>

definition is_digit :: "char \<Rightarrow> bool" where
  "is_digit c = (48 \<le> (of_char c :: nat) \<and> (of_char c :: nat) \<le> 57)"

definition match_int :: "string \<Rightarrow> (string \<times> string) option" where
  "match_int s =
     (case s of
        [] \<Rightarrow> None
      | c # r \<Rightarrow>
          if c = CHR ''0'' then Some ([c], r)
          else if is_digit c then Some (c # takeWhile is_digit r, dropWhile is_digit r)
          else None)"

definition match_frac :: "string \<Rightarrow> string \<times> string" where
  "match_frac s =
     (case s of
        c # d # r \<Rightarrow>
          if c = CHR ''.'' \<and> is_digit d
          then (c # d # takeWhile is_digit r, dropWhile is_digit r)
          else ([], s)
      | _ \<Rightarrow> ([], s))"

definition match_exp :: "string \<Rightarrow> string \<times> string" where
  "match_exp s =
     (case s of
        [] \<Rightarrow> ([], s)
      | c # r \<Rightarrow>
          if c = CHR ''e'' \<or> c = CHR ''E'' then
            (case r of
               [] \<Rightarrow> ([], s)
             | d # r' \<Rightarrow>
                 if is_digit d then (c # d # takeWhile is_digit r', dropWhile is_digit r')
                 else if d = CHR ''+'' \<or> d = CHR ''-'' then
                   (case r' of
                      [] \<Rightarrow> ([], s)
                    | g # r'' \<Rightarrow>
                        if is_digit g
                        then (c # d # g # takeWhile is_digit r'', dropWhile is_digit r'')
                        else ([], s))
                 else ([], s))
          else ([], s))"

definition match_number :: "string \<Rightarrow> (string \<times> string) option" where
  "match_number s =
     (let (sign, s1) =
            (case s of [] \<Rightarrow> ([], s) | c # r \<Rightarrow> if c = CHR ''-'' then ([c], r) else ([], s))
      in case match_int s1 of
           None \<Rightarrow> None
         | Some (i, s2) \<Rightarrow>
             (let (f, s3) = match_frac s2; (e, s4) = match_exp s3
              in Some (sign @ i @ f @ e, s4)))"

definition literal_at :: "string \<Rightarrow> string \<Rightarrow> bool" where
  "literal_at lit s = (take (length lit) s = lit)"

text \<open>Storing a key in a dictionary: a key already there keeps its place and takes the new
  value.\<close>

fun dict_set :: "(string \<times> json) list \<Rightarrow> string \<Rightarrow> json \<Rightarrow> (string \<times> json) list" where
  "dict_set [] k v = [(k, v)]"
| "dict_set ((k', v') # d) k v = (if k' = k then (k, v) # d else (k', v') # dict_set d k v)"

text \<open>
  The decoder. \<open>parse_value\<close> reads one value at the head of the text and returns it with
  the text that follows; \<open>parse_items\<close> reads the elements of an array from the first one
  to the closing bracket; \<open>parse_members\<close> reads the members of an object from just after
  the opening quote of a key to the closing brace. The first argument bounds the depth of
  the calls: every call gives its callees one less, and \<open>json_loads\<close> starts with twice
  the length of the text, plus two.
\<close>

fun parse_value :: "nat \<Rightarrow> string \<Rightarrow> (json \<times> string) option"
  and parse_items :: "nat \<Rightarrow> string \<Rightarrow> (json list \<times> string) option"
  and parse_members ::
    "nat \<Rightarrow> (string \<times> json) list \<Rightarrow> string \<Rightarrow> ((string \<times> json) list \<times> string) option"
where
  "parse_value 0 s = None"
| "parse_value (Suc n) s =
     (case s of
        [] \<Rightarrow> None
      | c # r \<Rightarrow>
          if c = CHR 0x22 then
            (case scanstring r of None \<Rightarrow> None | Some (t, r') \<Rightarrow> Some (JStr t, r'))
          else if c = CHR ''{'' then
            (case skip_ws r of
               [] \<Rightarrow> None
             | d # r' \<Rightarrow>
                 if d = CHR ''}'' then Some (JObj [], r')
                 else if d = CHR 0x22 then
                   (case parse_members n [] r' of
                      None \<Rightarrow> None
                    | Some (kvs, r'') \<Rightarrow> Some (JObj kvs, r''))
                 else None)
          else if c = CHR ''['' then
            (case skip_ws r of
               [] \<Rightarrow> None
             | d # r' \<Rightarrow>
                 if d = CHR '']'' then Some (JArr [], r')
                 else
                   (case parse_items n (d # r') of
                      None \<Rightarrow> None
                    | Some (vs, r'') \<Rightarrow> Some (JArr vs, r'')))
          else if literal_at ''null'' s then Some (JNull, drop 4 s)
          else if literal_at ''true'' s then Some (JBool True, drop 4 s)
          else if literal_at ''false'' s then Some (JBool False, drop 5 s)
          else
            (case match_number s of
               Some (lit, r') \<Rightarrow> Some (JNum lit, r')
             | None \<Rightarrow>
                 if literal_at ''NaN'' s then Some (JNum ''NaN'', drop 3 s)
                 else if literal_at ''Infinity'' s then Some (JNum ''Infinity'', drop 8 s)
                 else if literal_at ''-Infinity'' s then Some (JNum ''-Infinity'', drop 9 s)
                 else None))"
| "parse_items 0 s = None"
| "parse_items (Suc n) s =
     (case parse_value n s of
        None \<Rightarrow> None
      | Some (v, r) \<Rightarrow>
          (case skip_ws r of
             [] \<Rightarrow> None
           | d # r' \<Rightarrow>
               if d = CHR '']'' then Some ([v], r')
               else if d = CHR '','' then
                 (case parse_items n (skip_ws r') of
                    None \<Rightarrow> None
                  | Some (vs, r'') \<Rightarrow> Some (v # vs, r''))
               else None))"
| "parse_members 0 acc s = None"
| "parse_members (Suc n) acc s =
     (case scanstring s of
        None \<Rightarrow> None
      | Some (k, r) \<Rightarrow>
          (case skip_ws r of
             [] \<Rightarrow> None
           | d # r' \<Rightarrow>
               if d \<noteq> CHR '':'' then None
               else
                 (case parse_value n (skip_ws r') of
                    None \<Rightarrow> None
                  | Some (v, r'') \<Rightarrow>
                      (case skip_ws r'' of
                         [] \<Rightarrow> None
                       | e # r3 \<Rightarrow>
                           if e = CHR ''}'' then Some (dict_set acc k v, r3)
                           else if e = CHR '','' then
                             (case skip_ws r3 of
                                [] \<Rightarrow> None
                              | q # r4 \<Rightarrow>
                                  if q = CHR 0x22 then parse_members n (dict_set acc k v) r4
                                  else None)
                           else None))))"

text \<open>\<^verbatim>\<open>json.loads\<close>: whitespace, one value, whitespace, and nothing more.\<close>

definition json_loads :: "string \<Rightarrow> json option" where
  "json_loads s =
     (case parse_value (2 * length s + 2) (skip_ws s) of
        None \<Rightarrow> None
      | Some (v, r) \<Rightarrow> if skip_ws r = [] then Some v else None)"

section \<open>History store\<close>

text \<open>
  A history record is the dictionary \<^verbatim>\<open>{'url': ..., 'date': ...}\<close> that \<^verbatim>\<open>save_history\<close>
  builds; \<open>date\<close> is the text of \<^verbatim>\<open>datetime.now().isoformat()\<close>. The history in memory is
  a list of such records. The file \<^verbatim>\<open>logs/posted_articles.json\<close> is absent or holds a
  text.
\<close>

record history_record =
  url :: string
  date :: string

text \<open>
  \<^verbatim>\<open>json.dump(self.posted_articles, f, indent=2)\<close> on a list of records: \<^verbatim>\<open>[]\<close> for the
  empty list; otherwise one object per record, indented by two, its two members indented
  by four, with \<^verbatim>\<open>,\<close> and a line break between objects and between members.
\<close>

definition dump_record :: "history_record \<Rightarrow> string" where
  "dump_record post =
     ''{\<newline>    '' @ encode_string ''url'' @ '': '' @ encode_string (url post) @
     '',\<newline>    '' @ encode_string ''date'' @ '': '' @ encode_string (date post) @
     ''\<newline>  }''"

fun dump_items :: "history_record list \<Rightarrow> string" where
  "dump_items [] = []"
| "dump_items [post] = dump_record post"
| "dump_items (post # posts) = dump_record post @ '',\<newline>  '' @ dump_items posts"

definition json_dump :: "history_record list \<Rightarrow> string" where
  "json_dump h = (if h = [] then ''[]'' else ''[\<newline>  '' @ dump_items h @ ''\<newline>]'')"

text \<open>
  The value of a record, and the reading of a loaded value as a history: an array whose
  elements are objects with the two members \<^verbatim>\<open>url\<close> and \<^verbatim>\<open>date\<close>, in this order, both
  strings. Python keeps any other document as it is and fails, if at all, when a record is
  used; a history of records cannot hold it, and \<open>load_history\<close> reports it as
  \<open>OutsideModel\<close>.
\<close>

definition record_value :: "history_record \<Rightarrow> json" where
  "record_value post = JObj [(''url'', JStr (url post)), (''date'', JStr (date post))]"

fun as_record :: "json \<Rightarrow> history_record option" where
  "as_record (JObj [(k1, JStr u), (k2, JStr d)]) =
     (if k1 = ''url'' \<and> k2 = ''date'' then Some \<lparr>url = u, date = d\<rparr> else None)"
| "as_record _ = None"

fun as_records :: "json list \<Rightarrow> history_record list option" where
  "as_records [] = Some []"
| "as_records (v # vs) =
     (case as_record v of
        None \<Rightarrow> None
      | Some post \<Rightarrow>
          (case as_records vs of None \<Rightarrow> None | Some posts \<Rightarrow> Some (post # posts)))"

fun as_history :: "json \<Rightarrow> history_record list option" where
  "as_history (JArr vs) = as_records vs"
| "as_history _ = None"

text \<open>The bot object: \<^verbatim>\<open>self.posted_articles\<close>, and the text of the file that
  \<^verbatim>\<open>self.history_file\<close> names, \<open>None\<close> when the file does not exist.\<close>

record bot =
  posted_articles :: "history_record list"
  history_file :: "string option"

text \<open>\<^verbatim>\<open>load_history()\<close> reads the file and nothing else of the bot.\<close>

definition load_history :: "bot \<Rightarrow> error + history_record list" where
  "load_history self =
     (case history_file self of
        None \<Rightarrow> Inr []
      | Some file_text \<Rightarrow>
          (case json_loads file_text of
             None \<Rightarrow> Inl JSONDecodeError
           | Some v \<Rightarrow> (case as_history v of None \<Rightarrow> Inl OutsideModel | Some h \<Rightarrow> Inr h)))"

text \<open>\<^verbatim>\<open>__init__\<close>: the history is loaded once, when the bot is built.\<close>

definition init :: "string option \<Rightarrow> error + bot" where
  "init f =
     (case load_history \<lparr>posted_articles = [], history_file = f\<rparr> of
        Inl e \<Rightarrow> Inl e
      | Inr h \<Rightarrow> Inr \<lparr>posted_articles = h, history_file = f\<rparr>)"

text \<open>\<^verbatim>\<open>save_history(article_url)\<close>: append to the list in memory, then write the whole list
  over the file. \<open>now\<close> is the clock reading, already in ISO format.\<close>

definition save_history :: "string \<Rightarrow> string \<Rightarrow> bot \<Rightarrow> bot" where
  "save_history article_url now self =
     (let appended = posted_articles self @ [\<lparr>url = article_url, date = now\<rparr>]
      in self\<lparr>posted_articles := appended, history_file := Some (json_dump appended)\<rparr>)"

text \<open>How many records of a history carry a given url.\<close>

definition count_url :: "string \<Rightarrow> history_record list \<Rightarrow> nat" where
  "count_url u h = length (filter (\<lambda>post. url post = u) h)"

section \<open>Article fetcher\<close>

text \<open>
  An entry of the parsed feed: a dictionary in which any key may be missing. The code reads
  \<^verbatim>\<open>entry.title\<close> and \<^verbatim>\<open>entry.link\<close> as attributes, which raises \<^verbatim>\<open>AttributeError\<close> when
  the key is missing, and the other keys through \<^verbatim>\<open>entry.get\<close> with a default. When
  feedparser stores the key \<^verbatim>\<open>content\<close> it stores a list with at least one item;
  \<open>entry_content\<close> is the \<^verbatim>\<open>value\<close> of the first item and those of the others.
\<close>

record entry =
  entry_title :: "string option"
  entry_link :: "string option"
  entry_description :: "string option"
  entry_content :: "(string \<times> string list) option"
  entry_author :: "string option"
  entry_published :: "string option"

record article =
  title :: string
  link :: string
  description :: string
  content :: string

record discord_article = article +
  author :: string
  published :: string

text \<open>\<^verbatim>\<open>any(post['url'] == entry.link for post in self.posted_articles)\<close>: the generator
  reads \<^verbatim>\<open>entry.link\<close> once for every record it reaches, so not at all when the history is
  empty, and stops at the first record that matches.\<close>

fun any_posted :: "history_record list \<Rightarrow> entry \<Rightarrow> error + bool" where
  "any_posted [] e = Inr False"
| "any_posted (post # posts) e =
     (case entry_link e of
        None \<Rightarrow> Inl (AttributeError ''link'')
      | Some l \<Rightarrow> if url post = l then Inr True else any_posted posts e)"

fun RssTweetBot_first_unposted :: "bot \<Rightarrow> string \<Rightarrow> entry list \<Rightarrow> error + article" where
  "RssTweetBot_first_unposted self feed_url [] =
     Inl (Exception (''No new articles found in feed: '' @ feed_url))"
| "RssTweetBot_first_unposted self feed_url (e # es) =
     (case any_posted (posted_articles self) e of
        Inl err \<Rightarrow> Inl err
      | Inr posted \<Rightarrow>
          if \<not> posted then
            (case entry_title e of
               None \<Rightarrow> Inl (AttributeError ''title'')
             | Some t \<Rightarrow>
                 (case entry_link e of
                    None \<Rightarrow> Inl (AttributeError ''link'')
                  | Some l \<Rightarrow>
                      Inr \<lparr>title = t,
                           link = l,
                           description = (case entry_description e of None \<Rightarrow> [] | Some d \<Rightarrow> d),
                           content = (case entry_content e of None \<Rightarrow> [] | Some (v, _) \<Rightarrow> v)\<rparr>))
          else RssTweetBot_first_unposted self feed_url es)"

text \<open>\<^verbatim>\<open>get_latest_article(feed_url)\<close> of \<^verbatim>\<open>__main__.py\<close> and \<^verbatim>\<open>local.py\<close>; \<open>entries\<close> is
  \<^verbatim>\<open>feedparser.parse(feed_url).entries\<close>.\<close>

definition RssTweetBot_get_latest_article :: "bot \<Rightarrow> string \<Rightarrow> entry list \<Rightarrow> error + article" where
  "RssTweetBot_get_latest_article self feed_url entries =
     (if entries = [] then Inl (Exception (''No entries found in feed: '' @ feed_url))
      else RssTweetBot_first_unposted self feed_url entries)"

text \<open>The same method in \<^verbatim>\<open>discord.py\<close> and \<^verbatim>\<open>slack.py\<close> adds the author and the date of
  publication, with defaults; \<open>now\<close> is \<^verbatim>\<open>datetime.now().isoformat()\<close>.\<close>

fun RssDiscordBot_first_unposted ::
  "bot \<Rightarrow> string \<Rightarrow> string \<Rightarrow> entry list \<Rightarrow> error + discord_article" where
  "RssDiscordBot_first_unposted self feed_url now [] =
     Inl (Exception (''No new articles found in feed: '' @ feed_url))"
| "RssDiscordBot_first_unposted self feed_url now (e # es) =
     (case any_posted (posted_articles self) e of
        Inl err \<Rightarrow> Inl err
      | Inr posted \<Rightarrow>
          if \<not> posted then
            (case entry_title e of
               None \<Rightarrow> Inl (AttributeError ''title'')
             | Some t \<Rightarrow>
                 (case entry_link e of
                    None \<Rightarrow> Inl (AttributeError ''link'')
                  | Some l \<Rightarrow>
                      Inr \<lparr>title = t,
                           link = l,
                           description = (case entry_description e of None \<Rightarrow> [] | Some d \<Rightarrow> d),
                           content = (case entry_content e of None \<Rightarrow> [] | Some (v, _) \<Rightarrow> v),
                           author =
                             (case entry_author e of None \<Rightarrow> ''Unknown Author'' | Some a \<Rightarrow> a),
                           published = (case entry_published e of None \<Rightarrow> now | Some p \<Rightarrow> p)\<rparr>))
          else RssDiscordBot_first_unposted self feed_url now es)"

definition RssDiscordBot_get_latest_article ::
  "bot \<Rightarrow> string \<Rightarrow> string \<Rightarrow> entry list \<Rightarrow> error + discord_article" where
  "RssDiscordBot_get_latest_article self feed_url now entries =
     (if entries = [] then Inl (Exception (''No entries found in feed: '' @ feed_url))
      else RssDiscordBot_first_unposted self feed_url now entries)"

text \<open>
  For stating the contract: the urls of a history; whether an entry has a link that is
  the url of a history record; and the article with a given title and link and the
  description and content of an entry.
\<close>

definition urls :: "history_record list \<Rightarrow> string set" where
  "urls h = set (map url h)"

definition known_posted :: "history_record list \<Rightarrow> entry \<Rightarrow> bool" where
  "known_posted h e = (case entry_link e of None \<Rightarrow> False | Some l \<Rightarrow> l \<in> urls h)"

definition article_of :: "string \<Rightarrow> string \<Rightarrow> entry \<Rightarrow> article" where
  "article_of t l e =
     \<lparr>title = t,
      link = l,
      description = (case entry_description e of None \<Rightarrow> [] | Some d \<Rightarrow> d),
      content = (case entry_content e of None \<Rightarrow> [] | Some (v, _) \<Rightarrow> v)\<rparr>"

section \<open>Summarizer\<close>

text \<open>
  \<^verbatim>\<open>generate_summary\<close> of \<^verbatim>\<open>discord.py\<close> and \<^verbatim>\<open>slack.py\<close> first shortens the article's text:
  \<^verbatim>\<open>combined_content = (article['description'] + ' ' + article['content']).strip()\<close> and
  \<^verbatim>\<open>truncated_content = combined_content[:500] + ('...' if len(combined_content) > 500 else '')\<close>.
\<close>

definition max_content_length :: nat where
  "max_content_length = 500"

definition combined_content :: "'a article_scheme \<Rightarrow> string" where
  "combined_content a = strip (description a @ '' '' @ content a)"

definition truncated_content :: "'a article_scheme \<Rightarrow> string" where
  "truncated_content a =
     take max_content_length (combined_content a) @
     (if length (combined_content a) > max_content_length then ''...'' else '''')"

text \<open>The JSON body of the request: the messages as pairs of role and content, the model
  and the streaming flag. The temperature \<^verbatim>\<open>0.7\<close> and the headers are constants of the call
  and are left out.\<close>

record chat_request =
  messages :: "(string \<times> string) list"
  model :: string
  stream :: bool

definition RssDiscordBot_summary_request :: "'a article_scheme \<Rightarrow> chat_request" where
  "RssDiscordBot_summary_request a =
     \<lparr>messages =
        [(''system'',
          ''You are a friendly content curator. Create engaging, professional summaries. '' @
          ''Keep responses concise and precise, around 2-3 sentences. '' @
          ''Write in a natural, conversational tone that would be appropriate for a Discord channel.''),
         (''user'',
          ''Title: '' @ title a @ ''\<newline>'' @ ''Content: '' @ truncated_content a)],
      model = ''phi4:14b'',
      stream = False\<rparr>"

definition RssSlackBot_summary_request :: "'a article_scheme \<Rightarrow> chat_request" where
  "RssSlackBot_summary_request a =
     \<lparr>messages =
        [(''system'',
          ''You are a friendly content curator for the devops team in the data and analytics department at a children's hospital. Create engaging, professional summaries. '' @
          ''Keep responses concise and precise, around 2-3 sentences. '' @
          ''Write in a natural, conversational tone that would be appropriate for a Slack channel.'' @
          ''Only generate a responseif the content is relevant to the devops team, otherwise generate nothing.''),
         (''user'',
          ''Title: '' @ title a @ ''\<newline>'' @ ''Content: '' @ truncated_content a)],
      model = ''phi4:14b'',
      stream = False\<rparr>"

text \<open>
  The response of the generation endpoint: its status, its text, and the value
  \<^verbatim>\<open>response.json()\<close> returns (\<open>None\<close> when the body is not JSON and the call raises).
\<close>

record response =
  status_code :: int
  response_text :: string
  response_json :: "json option"

text \<open>\<^verbatim>\<open>v[k]\<close> for a string \<open>k\<close>, \<^verbatim>\<open>v[0]\<close>, and \<^verbatim>\<open>v.strip()\<close>, on a value that came out of
  \<^verbatim>\<open>response.json()\<close>. A dictionary from JSON has string keys only, so \<^verbatim>\<open>d[0]\<close> is a
  \<^verbatim>\<open>KeyError\<close>.\<close>

fun getitem :: "json \<Rightarrow> string \<Rightarrow> error + json" where
  "getitem (JObj kvs) k = (case map_of kvs k of None \<Rightarrow> Inl (KeyError k) | Some v \<Rightarrow> Inr v)"
| "getitem _ k = Inl TypeError"

fun getitem0 :: "json \<Rightarrow> error + json" where
  "getitem0 (JArr xs) =
     (case xs of [] \<Rightarrow> Inl (IndexError ''list index out of range'') | x # _ \<Rightarrow> Inr x)"
| "getitem0 (JStr s) =
     (case s of [] \<Rightarrow> Inl (IndexError ''string index out of range'') | c # _ \<Rightarrow> Inr (JStr [c]))"
| "getitem0 (JObj kvs) = Inl (KeyError ''0'')"
| "getitem0 _ = Inl TypeError"

fun json_strip :: "json \<Rightarrow> error + string" where
  "json_strip (JStr s) = Inr (strip s)"
| "json_strip _ = Inl (AttributeError ''strip'')"

text \<open>\<^verbatim>\<open>response.json()['choices'][0]['message']['content'].strip()\<close>\<close>

definition completion_text :: "response \<Rightarrow> error + string" where
  "completion_text resp =
     (case response_json resp of
        None \<Rightarrow> Inl JSONDecodeError
      | Some j \<Rightarrow>
          (case getitem j ''choices'' of
             Inl e \<Rightarrow> Inl e
           | Inr choices \<Rightarrow>
               (case getitem0 choices of
                  Inl e \<Rightarrow> Inl e
                | Inr choice \<Rightarrow>
                    (case getitem choice ''message'' of
                       Inl e \<Rightarrow> Inl e
                     | Inr message \<Rightarrow>
                         (case getitem message ''content'' of
                            Inl e \<Rightarrow> Inl e
                          | Inr c \<Rightarrow> json_strip c)))))"

text \<open>\<^verbatim>\<open>generate_summary(article)\<close> of \<^verbatim>\<open>discord.py\<close>; \<open>endpoint\<close> is the remote service
  answering \<^verbatim>\<open>requests.post\<close>. The method of \<^verbatim>\<open>slack.py\<close> differs in the system prompt only.\<close>

definition RssDiscordBot_generate_summary ::
  "(chat_request \<Rightarrow> response) \<Rightarrow> 'a article_scheme \<Rightarrow> error + string" where
  "RssDiscordBot_generate_summary endpoint a =
     (let resp = endpoint (RssDiscordBot_summary_request a)
      in if status_code resp \<noteq> 200 then Inl (Exception (''Ollama API error: '' @ response_text resp))
         else completion_text resp)"

definition RssSlackBot_generate_summary ::
  "(chat_request \<Rightarrow> response) \<Rightarrow> 'a article_scheme \<Rightarrow> error + string" where
  "RssSlackBot_generate_summary endpoint a =
     (let resp = endpoint (RssSlackBot_summary_request a)
      in if status_code resp \<noteq> 200 then Inl (Exception (''Ollama API error: '' @ response_text resp))
         else completion_text resp)"

text \<open>
  An endpoint for observing what is sent: it refuses every request with status 500 and
  gives back, as the text of its response, the content of the user message it received.
\<close>

definition user_content :: "chat_request \<Rightarrow> string" where
  "user_content request = (case map_of (messages request) ''user'' of None \<Rightarrow> [] | Some c \<Rightarrow> c)"

definition echo_endpoint :: "chat_request \<Rightarrow> response" where
  "echo_endpoint request =
     \<lparr>status_code = 500, response_text = user_content request, response_json = None\<rparr>"

text \<open>A body that carries a string at \<^verbatim>\<open>choices[0].message.content\<close>.\<close>

definition completion_body :: "string \<Rightarrow> json" where
  "completion_body t =
     JObj [(''choices'', JArr [JObj [(''message'', JObj [(''content'', JStr t)])]])]"

text \<open>Reading a JSON value without raising: the member of an object, the first element of
  an array. \<open>has_completion j t\<close> says that \<open>j\<close> is an object whose \<^verbatim>\<open>choices\<close> is an array,
  whose first element is an object, whose \<^verbatim>\<open>message\<close> is an object, whose \<^verbatim>\<open>content\<close> is
  the string \<open>t\<close>.\<close>

fun obj_lookup :: "json \<Rightarrow> string \<Rightarrow> json option" where
  "obj_lookup (JObj kvs) k = map_of kvs k"
| "obj_lookup _ k = None"

fun arr_first :: "json \<Rightarrow> json option" where
  "arr_first (JArr (x # _)) = Some x"
| "arr_first _ = None"

definition has_completion :: "json \<Rightarrow> string \<Rightarrow> bool" where
  "has_completion j t =
     (case obj_lookup j ''choices'' of
        None \<Rightarrow> False
      | Some choices \<Rightarrow>
          (case arr_first choices of
             None \<Rightarrow> False
           | Some choice \<Rightarrow>
               (case obj_lookup choice ''message'' of
                  None \<Rightarrow> False
                | Some message \<Rightarrow> obj_lookup message ''content'' = Some (JStr t))))"

text \<open>An endpoint that gives the same response to every request.\<close>

definition answering :: "response \<Rightarrow> chat_request \<Rightarrow> response" where
  "answering resp request = resp"

section \<open>Publisher and run loop of \<^verbatim>\<open>discord.py\<close>\<close>

text \<open>The embed handed to the webhook; \<open>webhook\<close> answers whether the response of
  \<^verbatim>\<open>webhook.execute()\<close> is truthy.\<close>

record embed =
  embed_title :: string
  embed_description :: string
  embed_url :: string
  embed_author :: string
  embed_footer :: string

definition post_to_discord ::
  "(embed \<Rightarrow> bool) \<Rightarrow> discord_article \<Rightarrow> string \<Rightarrow> error + unit" where
  "post_to_discord webhook a summary =
     (if \<not> webhook \<lparr>embed_title = title a,
                      embed_description = summary,
                      embed_url = link a,
                      embed_author = author a,
                      embed_footer = ''Published: '' @ published a\<rparr>
      then Inl (Exception ''Error posting to Discord'')
      else Inr ())"

text \<open>
  What one cycle of the loop meets: the text of \<^verbatim>\<open>rss_feeds.txt\<close>, the generator's draw,
  the feeds behind the URLs, the two clock readings, the generation endpoint and the
  webhook. The run writes log lines and sleeps; an error line records the exception
  that \<^verbatim>\<open>str(e)\<close> renders.
\<close>

record env =
  feed_list :: string
  draw :: nat
  web :: "string \<Rightarrow> entry list"
  now_fetch :: string
  endpoint :: "chat_request \<Rightarrow> response"
  webhook :: "embed \<Rightarrow> bool"
  now_save :: string

datatype event = LogInfo string | LogError error | Sleep nat

text \<open>The body of \<^verbatim>\<open>try\<close> inside \<^verbatim>\<open>while True\<close>, with its \<^verbatim>\<open>except Exception\<close>: the first
  error ends the body, is logged, and leaves the bot as it was.\<close>

definition cycle :: "env \<Rightarrow> bot \<Rightarrow> bot \<times> event list" where
  "cycle v self =
     (case RssDiscordBot_get_random_feed_url (feed_list v) (draw v) of
        Inl e \<Rightarrow> (self, [LogError e])
      | Inr feed_url \<Rightarrow>
          (case RssDiscordBot_get_latest_article self feed_url (now_fetch v) (web v feed_url) of
             Inl e \<Rightarrow> (self, [LogInfo (''Selected feed: '' @ feed_url), LogError e])
           | Inr a \<Rightarrow>
               (case RssDiscordBot_generate_summary (endpoint v) a of
                  Inl e \<Rightarrow>
                    (self, [LogInfo (''Selected feed: '' @ feed_url),
                            LogInfo (''Found article: '' @ title a),
                            LogError e])
                | Inr summary \<Rightarrow>
                    (case post_to_discord (webhook v) a summary of
                       Inl e \<Rightarrow>
                         (self, [LogInfo (''Selected feed: '' @ feed_url),
                                 LogInfo (''Found article: '' @ title a),
                                 LogInfo (''Generated summary: '' @ summary),
                                 LogError e])
                     | Inr _ \<Rightarrow>
                         (save_history (link a) (now_save v) self,
                          [LogInfo (''Selected feed: '' @ feed_url),
                           LogInfo (''Found article: '' @ title a),
                           LogInfo (''Generated summary: '' @ summary),
                           LogInfo ''Posted to Discord successfully'',
                           LogInfo ''Updated article history''])))))"

text \<open>\<^verbatim>\<open>while True\<close>: one cycle, the sleep of \<^verbatim>\<open>interval = 3\<close> seconds, and again. The list
  holds what the successive cycles meet; it ends where the interrupt arrives.\<close>

fun main_loop :: "env list \<Rightarrow> bot \<Rightarrow> bot \<times> event list" where
  "main_loop [] self = (self, [])"
| "main_loop (v # vs) self =
     (let (self', log) = cycle v self;
          (self'', log') = main_loop vs self'
      in (self'', log @ [LogInfo ''Sleeping for 3 seconds...'', Sleep 3] @ log'))"

section \<open>The URL step of \<^verbatim>\<open>local.py\<close>\<close>

text \<open>\<^verbatim>\<open>sub in s\<close> on strings.\<close>

fun contains :: "string \<Rightarrow> string \<Rightarrow> bool" where
  "contains [] sub = (sub = [])"
| "contains (c # cs) sub = (startswith (c # cs) sub \<or> contains cs sub)"

text \<open>\<^verbatim>\<open>s.replace(old, new)\<close>: from the left, every occurrence of \<open>old\<close> that does not
  overlap one already replaced. With an empty \<open>old\<close> Python puts \<open>new\<close> before every
  character and at the end.\<close>

fun str_replace :: "string \<Rightarrow> string \<Rightarrow> string \<Rightarrow> string" where
  "str_replace old new [] = (if old = [] then new else [])"
| "str_replace old new (c # cs) =
     (if old = [] then new @ c # str_replace old new cs
      else if startswith (c # cs) old
           then new @ str_replace old new (drop (length old) (c # cs))
           else c # str_replace old new cs)"

text \<open>Lines 153 to 158 of \<^verbatim>\<open>main\<close>: the text handed to \<^verbatim>\<open>post_tweet\<close>, from the generated
  tweet and the article.\<close>

definition ensure_url :: "string \<Rightarrow> 'a article_scheme \<Rightarrow> string" where
  "ensure_url tweet a =
     (if \<not> contains tweet (link a)
      then (if contains tweet ''[URL]''
            then str_replace ''[URL]'' (link a) tweet
            else rstrip tweet @ '' '' @ link a)
      else tweet)"

section \<open>Sample data\<close>

text \<open>A feed entry with a given link, one without a link, one without a title, and a bot
  whose history holds the url \<^verbatim>\<open>A\<close>, in memory and in its file.\<close>

definition example_entry :: "string \<Rightarrow> entry" where
  "example_entry l =
     \<lparr>entry_title = Some (''Title of '' @ l), entry_link = Some l,
      entry_description = Some ''About'', entry_content = None, entry_author = None,
      entry_published = None\<rparr>"



definition example_history :: "history_record list" where
  "example_history = [\<lparr>url = ''A'', date = ''2024-01-01T00:00:00''\<rparr>]"

definition example_bot :: bot where
  "example_bot =
     \<lparr>posted_articles = example_history, history_file = Some (json_dump example_history)\<rparr>"

text \<open>A bot whose memory holds nothing of what its file holds.\<close>

definition forgetful_bot :: "string option \<Rightarrow> bot" where
  "forgetful_bot f = \<lparr>posted_articles = [], history_file = f\<rparr>"

text \<open>The article that the fetcher of \<^verbatim>\<open>__main__.py\<close> builds from the entry \<^verbatim>\<open>B\<close>.\<close>

definition example_tweet_article :: article where
  "example_tweet_article =
     \<lparr>title = ''Title of B'', link = ''B'', description = ''About'', content = []\<rparr>"

text \<open>Two articles, one whose text is longer than the budget of the summarizer.\<close>

definition long_article :: article where
  "long_article =
     \<lparr>title = ''T'', link = ''http://example.com/1'',
      description = replicate 600 (CHR ''x''), content = '' ''\<rparr>"

definition short_article :: article where
  "short_article =
     \<lparr>title = ''T'', link = ''http://example.com/1'',
      description = '' About'', content = ''it ''\<rparr>"

text \<open>Three responses of the generation endpoint: status 200 with the body \<^verbatim>\<open>{}\<close>, status
  500, and status 200 with a completion.\<close>

definition empty_object_response :: response where
  "empty_object_response =
     \<lparr>status_code = 200, response_text = ''{}'', response_json = Some (JObj [])\<rparr>"

definition server_error_response :: response where
  "server_error_response =
     \<lparr>status_code = 500, response_text = ''Internal Server Error'', response_json = None\<rparr>"

definition completion_response :: response where
  "completion_response =
     \<lparr>status_code = 200, response_text = ''(body)'',
      response_json = Some (completion_body '' A short summary. '')\<rparr>"

text \<open>What a cycle of the Discord bot meets: one feed in the list, with the entries
  \<^verbatim>\<open>A\<close> and \<^verbatim>\<open>B\<close>, a webhook that accepts, and the given response of the endpoint. The
  article is the one the fetcher builds from entry \<^verbatim>\<open>B\<close>.\<close>

definition example_web :: "string \<Rightarrow> entry list" where
  "example_web feed_url = [example_entry ''A'', example_entry ''B'']"

definition accepting_webhook :: "embed \<Rightarrow> bool" where
  "accepting_webhook e = True"

definition example_env :: "response \<Rightarrow> env" where
  "example_env resp =
     \<lparr>feed_list = ''# feeds\<newline>http://example.com/feed.xml news'', draw = 0,
      web = example_web, now_fetch = ''2024-01-02T00:00:00'',
      endpoint = answering resp, webhook = accepting_webhook,
      now_save = ''2024-01-02T00:00:05''\<rparr>"

definition example_article :: discord_article where
  "example_article =
     \<lparr>title = ''Title of B'', link = ''B'', description = ''About'', content = [],
      author = ''Unknown Author'', published = ''2024-01-02T00:00:00''\<rparr>"

section \<open>Facts about the string operations\<close>

lemma split_sep_from_head:
  "split_sep_from sep cur s \<noteq> [] \<and>
   hd (split_sep_from sep cur s) = rev cur @ takeWhile (\<lambda>c. c \<noteq> sep) s"
  by (induction s arbitrary: cur) auto

lemma first_split_sep: "first (split_sep sep s) = Inr (takeWhile (\<lambda>c. c \<noteq> sep) s)"
  using split_sep_from_head [of sep "[]" s]
  by (cases "split_sep_from sep [] s") (auto simp: first_def split_sep_def)

lemma split_ws_from_head:
  "cur \<noteq> [] \<Longrightarrow> split_ws_from cur s \<noteq> [] \<and>
     hd (split_ws_from cur s) = rev cur @ takeWhile (\<lambda>c. \<not> isspace c) s"
  by (induction s arbitrary: cur) auto

lemma split_ws_from_spaces: "\<forall>c\<in>set s. isspace c \<Longrightarrow> split_ws_from [] s = []"
  by (induction s) auto

lemma first_split_ws_spaces:
  "\<forall>c\<in>set s. isspace c \<Longrightarrow> first (split_ws s) = Inl (IndexError ''list index out of range'')"
  by (simp add: split_ws_def split_ws_from_spaces first_def)

lemma first_split_ws_Cons:
  "\<not> isspace c \<Longrightarrow> first (split_ws (c # s)) = Inr (c # takeWhile (\<lambda>c. \<not> isspace c) s)"
  using split_ws_from_head [of "[c]" s]
  by (cases "split_ws_from [c] s") (auto simp: first_def split_ws_def)

lemma lstrip_Cons: "\<not> isspace c \<Longrightarrow> lstrip (c # s) = c # s"
  by (simp add: lstrip_def)

lemma rstrip_Cons: "\<not> isspace c \<Longrightarrow> rstrip (c # s) = c # rstrip s"
  by (simp add: rstrip_def dropWhile_append)

lemma strip_Cons: "\<not> isspace c \<Longrightarrow> strip (c # s) = c # rstrip s"
  by (simp add: strip_def lstrip_Cons rstrip_Cons)

lemma not_isspace_hash: "\<not> isspace (CHR ''#'')"
  by (simp add: isspace_def)

section \<open>Feed selector: what the list of valid feeds is\<close>

lemma RssTweetBot_valid_feeds_eq:
  "RssTweetBot_valid_feeds acc lines = Inr (acc @ map url_part_bang (filter usable lines))"
  by (induction lines arbitrary: acc) (auto simp: first_split_sep url_part_bang_def)

lemma RssDiscordBot_valid_feeds_blank:
  "\<exists>l\<in>set lines. l \<noteq> [] \<and> (\<forall>c\<in>set l. isspace c) \<Longrightarrow>
   RssDiscordBot_valid_feeds acc lines = Inl (IndexError ''list index out of range'')"
proof (induction lines arbitrary: acc)
  case Nil
  then show ?case by simp
next
  case (Cons l ls)
  show ?case
  proof (cases "l \<noteq> [] \<and> (\<forall>c\<in>set l. isspace c)")
    case True
    then have "usable l"
      using not_isspace_hash by (cases l) (auto simp: usable_def startswith_def)
    then show ?thesis using True by (simp add: first_split_ws_spaces)
  next
    case False
    with Cons.prems have ex: "\<exists>l\<in>set ls. l \<noteq> [] \<and> (\<forall>c\<in>set l. isspace c)" by auto
    show ?thesis
    proof (cases "usable l")
      case False
      then show ?thesis using Cons.IH [OF ex] by simp
    next
      case True
      show ?thesis
      proof (cases "first (split_ws l)")
        case (Inl e)
        then show ?thesis using True by (auto simp: first_def split: list.splits)
      next
        case (Inr p)
        then show ?thesis using True Cons.IH [OF ex] by simp
      qed
    qed
  qed
qed

lemma random_choice_mem:
  "xs \<noteq> [] \<Longrightarrow> \<exists>x\<in>set xs. random_choice r xs = Inr x"
  by (simp add: random_choice_def)

lemma lstrip_eq_Nil: "lstrip l = [] \<longleftrightarrow> (\<forall>c\<in>set l. isspace c)"
  by (simp add: lstrip_def dropWhile_eq_Nil_conv)

lemma lstrip_Cons_not_space: "lstrip l = c # s \<Longrightarrow> \<not> isspace c"
  using hd_dropWhile [of isspace l] by (simp add: lstrip_def)

lemma split_ws_from_lstrip: "split_ws_from [] s = split_ws_from [] (lstrip s)"
  by (induction s) (simp_all add: lstrip_def)

lemma first_split_ws_lstrip:
  assumes "lstrip l = c # s"
  shows "first (split_ws l) = Inr (c # takeWhile (\<lambda>c. \<not> isspace c) s)"
proof -
  have "split_ws l = split_ws (c # s)"
    using split_ws_from_lstrip [of l] assms split_ws_from_lstrip [of "c # s"]
      lstrip_Cons_not_space [OF assms]
    by (simp add: split_ws_def lstrip_def)
  then show ?thesis
    using first_split_ws_Cons [OF lstrip_Cons_not_space [OF assms]] by simp
qed

lemma ws_url_Cons: "lstrip l = c # s \<Longrightarrow> ws_url l = c # rstrip (takeWhile (\<lambda>c. \<not> isspace c) s)"
  using lstrip_Cons_not_space [of l c s] by (simp add: ws_url_def strip_Cons)

lemma RssDiscordBot_valid_feeds_eq:
  "\<forall>l\<in>set lines. usable l \<longrightarrow> lstrip l \<noteq> [] \<Longrightarrow>
   RssDiscordBot_valid_feeds acc lines = Inr (acc @ map ws_url (filter usable lines))"
proof (induction lines arbitrary: acc)
  case Nil
  then show ?case by simp
next
  case (Cons l ls)
  show ?case
  proof (cases "usable l")
    case False
    then show ?thesis using Cons by simp
  next
    case True
    with Cons.prems obtain c s where l: "lstrip l = c # s" by (cases "lstrip l") auto
    have "strip (c # takeWhile (\<lambda>c. \<not> isspace c) s) = ws_url l"
      using lstrip_Cons_not_space [OF l] by (simp add: ws_url_def l)
    then show ?thesis
      using True Cons by (simp add: first_split_ws_lstrip [OF l])
  qed
qed

lemma ws_url_clean:
  assumes "lstrip l \<noteq> []"
  shows "ws_url l \<noteq> [] \<and> \<not> startswith (ws_url l) ''#'' \<longleftrightarrow> hd (lstrip l) \<noteq> CHR ''#''"
proof -
  from assms obtain c s where l: "lstrip l = c # s" by (cases "lstrip l") auto
  then show ?thesis by (simp add: ws_url_Cons [OF l] startswith_def)
qed

lemma url_part_bang_lstrip:
  "url_part_bang l = strip (takeWhile (\<lambda>c. c \<noteq> CHR ''!'') (lstrip l))"
proof -
  have ns: "\<not> isspace (CHR ''!'')" by (simp add: isspace_def)
  have "lstrip (takeWhile (\<lambda>c. c \<noteq> CHR ''!'') l) = takeWhile (\<lambda>c. c \<noteq> CHR ''!'') (lstrip l)"
    unfolding lstrip_def
  proof (induction l)
    case Nil
    then show ?case by simp
  next
    case (Cons a l)
    then show ?case using ns by auto
  qed
  moreover have "strip (lstrip s) = strip s" for s
    by (simp add: strip_def lstrip_def)
  ultimately show ?thesis
    by (metis url_part_bang_def strip_def)
qed

lemma url_part_bang_clean_iff:
  "url_part_bang l \<noteq> [] \<and> \<not> startswith (url_part_bang l) ''#'' \<longleftrightarrow>
   lstrip l \<noteq> [] \<and> hd (lstrip l) \<noteq> CHR ''#'' \<and> hd (lstrip l) \<noteq> CHR ''!''"
proof (cases "lstrip l")
  case Nil
  have "strip [] = []" by (simp add: strip_def lstrip_def rstrip_def)
  with Nil show ?thesis by (simp add: url_part_bang_lstrip)
next
  case (Cons c s)
  have ns: "\<not> isspace c" using lstrip_Cons_not_space [OF Cons] .
  show ?thesis
  proof (cases "c = CHR ''!''")
    case True
    have "strip [] = []" by (simp add: strip_def lstrip_def rstrip_def)
    with True show ?thesis by (simp add: url_part_bang_lstrip Cons)
  next
    case False
    then show ?thesis
      using ns by (simp add: url_part_bang_lstrip Cons strip_Cons startswith_def)
  qed
qed

lemma random_choice_nth: "i < length xs \<Longrightarrow> random_choice i xs = Inr (xs ! i)"
  by (auto simp: random_choice_def)

lemma random_choice_bad:
  assumes "x \<in> set xs"
  shows "\<exists>r. random_choice r xs = Inr x"
proof -
  from assms obtain i where "i < length xs" "xs ! i = x" by (auto simp: in_set_conv_nth)
  then show ?thesis using random_choice_nth [of i xs] by auto
qed

text \<open>
  C3, as stated: whenever the feed list has a line that is neither empty nor a comment,
  the selector returns neither an empty string nor a string starting with \<^verbatim>\<open>#\<close>, in both
  variants. This fails. The test \<^verbatim>\<open>if line and not line.startswith('#')\<close> looks at the raw
  line, and the URL part is stripped afterwards: next to the good line
  \<^verbatim>\<open>http://example.com/feed.xml\<close>, the line \<^verbatim>\<open> #note\<close> passes the test and both variants
  return \<^verbatim>\<open>#note\<close> when the draw falls on it; the line \<^verbatim>\<open>!tag\<close> makes the \<^verbatim>\<open>'!'\<close> variant
  return the empty string.
\<close>

theorem feed_selector_counterexample:
  "usable ''http://example.com/feed.xml'' \<and>
   ''http://example.com/feed.xml'' \<in> set (splitlines ''http://example.com/feed.xml\<newline> #note'') \<and>
   RssDiscordBot_get_random_feed_url ''http://example.com/feed.xml\<newline> #note'' 1 = Inr ''#note'' \<and>
   RssTweetBot_get_random_feed_url ''http://example.com/feed.xml\<newline> #note'' 1 = Inr ''#note'' \<and>
   startswith ''#note'' ''#'' \<and>
   ''http://example.com/feed.xml'' \<in> set (splitlines ''http://example.com/feed.xml\<newline>!tag'') \<and>
   RssTweetBot_get_random_feed_url ''http://example.com/feed.xml\<newline>!tag'' 1 = Inr ''''"
  by code_simp

text \<open>
  C3, amended: \<^verbatim>\<open>get_random_feed_url\<close> returns, for every draw, a URL that is not empty and
  does not start with \<^verbatim>\<open>#\<close> exactly when the feed list has at least one line that is
  neither empty nor a comment and, in every such line, the first character that is not
  whitespace exists and is not \<^verbatim>\<open>#\<close> (whitespace variant), or exists and is neither
  \<^verbatim>\<open>#\<close> nor \<^verbatim>\<open>!\<close> (\<^verbatim>\<open>'!'\<close> variant).
\<close>

theorem feed_selector_clean:
  "((\<forall>r. \<exists>u. RssDiscordBot_get_random_feed_url file_text r = Inr u \<and>
            u \<noteq> [] \<and> \<not> startswith u ''#'') \<longleftrightarrow>
      (\<exists>l\<in>set (splitlines file_text). usable l) \<and>
      (\<forall>l\<in>set (splitlines file_text). usable l \<longrightarrow>
           lstrip l \<noteq> [] \<and> hd (lstrip l) \<noteq> CHR ''#'')) \<and>
   ((\<forall>r. \<exists>u. RssTweetBot_get_random_feed_url file_text r = Inr u \<and>
            u \<noteq> [] \<and> \<not> startswith u ''#'') \<longleftrightarrow>
      (\<exists>l\<in>set (splitlines file_text). usable l) \<and>
      (\<forall>l\<in>set (splitlines file_text). usable l \<longrightarrow>
           lstrip l \<noteq> [] \<and> hd (lstrip l) \<noteq> CHR ''#'' \<and> hd (lstrip l) \<noteq> CHR ''!''))"
proof (intro conjI)
  let ?lines = "splitlines file_text"
  let ?ls = "filter usable ?lines"
  let ?D = "\<lambda>r. RssDiscordBot_get_random_feed_url file_text r"
  show "(\<forall>r. \<exists>u. ?D r = Inr u \<and> u \<noteq> [] \<and> \<not> startswith u ''#'') \<longleftrightarrow>
      (\<exists>l\<in>set ?lines. usable l) \<and>
      (\<forall>l\<in>set ?lines. usable l \<longrightarrow> lstrip l \<noteq> [] \<and> hd (lstrip l) \<noteq> CHR ''#'')"
  proof
    assume good: "\<forall>r. \<exists>u. ?D r = Inr u \<and> u \<noteq> [] \<and> \<not> startswith u ''#''"
    have nonblank: "\<forall>l\<in>set ?lines. usable l \<longrightarrow> lstrip l \<noteq> []"
    proof (rule ccontr)
      assume "\<not> (\<forall>l\<in>set ?lines. usable l \<longrightarrow> lstrip l \<noteq> [])"
      then obtain l where "l \<in> set ?lines" "usable l" "lstrip l = []" by auto
      then have "\<exists>l\<in>set ?lines. l \<noteq> [] \<and> (\<forall>c\<in>set l. isspace c)"
        by (auto simp: usable_def lstrip_eq_Nil)
      from RssDiscordBot_valid_feeds_blank [OF this, of "[]"]
      have "?D 0 = Inl (IndexError ''list index out of range'')"
        by (simp add: RssDiscordBot_get_random_feed_url_def)
      moreover from good obtain u where "?D 0 = Inr u" by blast
      ultimately show False by simp
    qed
    have D: "?D r = random_choice r (map ws_url ?ls)" for r
      by (simp add: RssDiscordBot_get_random_feed_url_def RssDiscordBot_valid_feeds_eq [OF nonblank])
    have some: "\<exists>l\<in>set ?lines. usable l"
    proof (rule ccontr)
      assume "\<not> (\<exists>l\<in>set ?lines. usable l)"
      then have "?ls = []" by (auto simp: filter_empty_conv)
      moreover from good obtain u where "?D 0 = Inr u" by blast
      ultimately show False using D [of 0] by (simp add: random_choice_def)
    qed
    have "hd (lstrip l) \<noteq> CHR ''#''" if l: "l \<in> set ?lines" "usable l" for l
    proof
      assume h: "hd (lstrip l) = CHR ''#''"
      from l nonblank have nb: "lstrip l \<noteq> []" by auto
      from l have "ws_url l \<in> set (map ws_url ?ls)" by auto
      from random_choice_bad [OF this] obtain r where "random_choice r (map ws_url ?ls) = Inr (ws_url l)"
        by blast
      moreover from good obtain u where "?D r = Inr u" "u \<noteq> [] \<and> \<not> startswith u ''#''"
        by blast
      ultimately have "ws_url l \<noteq> [] \<and> \<not> startswith (ws_url l) ''#''"
        using D [of r] by simp
      with ws_url_clean [OF nb] h show False by simp
    qed
    with some nonblank show "(\<exists>l\<in>set ?lines. usable l) \<and>
      (\<forall>l\<in>set ?lines. usable l \<longrightarrow> lstrip l \<noteq> [] \<and> hd (lstrip l) \<noteq> CHR ''#'')"
      by blast
  next
    assume c: "(\<exists>l\<in>set ?lines. usable l) \<and>
      (\<forall>l\<in>set ?lines. usable l \<longrightarrow> lstrip l \<noteq> [] \<and> hd (lstrip l) \<noteq> CHR ''#'')"
    then have nonblank: "\<forall>l\<in>set ?lines. usable l \<longrightarrow> lstrip l \<noteq> []" by blast
    have D: "?D r = random_choice r (map ws_url ?ls)" for r
      by (simp add: RssDiscordBot_get_random_feed_url_def RssDiscordBot_valid_feeds_eq [OF nonblank])
    have ne: "map ws_url ?ls \<noteq> []" using c by (auto simp: filter_empty_conv)
    show "\<forall>r. \<exists>u. ?D r = Inr u \<and> u \<noteq> [] \<and> \<not> startswith u ''#''"
    proof
      fix r
      from random_choice_mem [OF ne, of r] obtain u
        where u: "u \<in> set (map ws_url ?ls)" and ch: "random_choice r (map ws_url ?ls) = Inr u"
        by blast
      from u obtain l where l: "l \<in> set ?lines" "usable l" "u = ws_url l" by auto
      with c have "lstrip l \<noteq> []" "hd (lstrip l) \<noteq> CHR ''#''" by auto
      with ws_url_clean [of l] l have "u \<noteq> [] \<and> \<not> startswith u ''#''" by simp
      with ch D [of r] show "\<exists>u. ?D r = Inr u \<and> u \<noteq> [] \<and> \<not> startswith u ''#''" by simp
    qed
  qed
next
  let ?lines = "splitlines file_text"
  let ?ls = "filter usable ?lines"
  let ?T = "\<lambda>r. RssTweetBot_get_random_feed_url file_text r"
  have T: "?T r = random_choice r (map url_part_bang ?ls)" for r
    by (simp add: RssTweetBot_get_random_feed_url_def RssTweetBot_valid_feeds_eq)
  show "(\<forall>r. \<exists>u. ?T r = Inr u \<and> u \<noteq> [] \<and> \<not> startswith u ''#'') \<longleftrightarrow>
      (\<exists>l\<in>set ?lines. usable l) \<and>
      (\<forall>l\<in>set ?lines. usable l \<longrightarrow>
           lstrip l \<noteq> [] \<and> hd (lstrip l) \<noteq> CHR ''#'' \<and> hd (lstrip l) \<noteq> CHR ''!'')"
  proof
    assume good: "\<forall>r. \<exists>u. ?T r = Inr u \<and> u \<noteq> [] \<and> \<not> startswith u ''#''"
    have some: "\<exists>l\<in>set ?lines. usable l"
    proof (rule ccontr)
      assume "\<not> (\<exists>l\<in>set ?lines. usable l)"
      then have "?ls = []" by (auto simp: filter_empty_conv)
      moreover from good obtain u where "?T 0 = Inr u" by blast
      ultimately show False using T [of 0] by (simp add: random_choice_def)
    qed
    have "lstrip l \<noteq> [] \<and> hd (lstrip l) \<noteq> CHR ''#'' \<and> hd (lstrip l) \<noteq> CHR ''!''"
      if l: "l \<in> set ?lines" "usable l" for l
    proof -
      from l have "url_part_bang l \<in> set (map url_part_bang ?ls)" by auto
      from random_choice_bad [OF this] obtain r
        where "random_choice r (map url_part_bang ?ls) = Inr (url_part_bang l)"
        by blast
      moreover from good obtain u where "?T r = Inr u" "u \<noteq> [] \<and> \<not> startswith u ''#''"
        by blast
      ultimately have "url_part_bang l \<noteq> [] \<and> \<not> startswith (url_part_bang l) ''#''"
        using T [of r] by simp
      then show ?thesis by (simp add: url_part_bang_clean_iff)
    qed
    with some show "(\<exists>l\<in>set ?lines. usable l) \<and>
      (\<forall>l\<in>set ?lines. usable l \<longrightarrow>
           lstrip l \<noteq> [] \<and> hd (lstrip l) \<noteq> CHR ''#'' \<and> hd (lstrip l) \<noteq> CHR ''!'')"
      by blast
  next
    assume c: "(\<exists>l\<in>set ?lines. usable l) \<and>
      (\<forall>l\<in>set ?lines. usable l \<longrightarrow>
           lstrip l \<noteq> [] \<and> hd (lstrip l) \<noteq> CHR ''#'' \<and> hd (lstrip l) \<noteq> CHR ''!'')"
    have ne: "map url_part_bang ?ls \<noteq> []" using c by (auto simp: filter_empty_conv)
    show "\<forall>r. \<exists>u. ?T r = Inr u \<and> u \<noteq> [] \<and> \<not> startswith u ''#''"
    proof
      fix r
      from random_choice_mem [OF ne, of r] obtain u
        where u: "u \<in> set (map url_part_bang ?ls)"
          and ch: "random_choice r (map url_part_bang ?ls) = Inr u"
        by blast
      from u obtain l where l: "l \<in> set ?lines" "usable l" "u = url_part_bang l" by auto
      with c have "lstrip l \<noteq> [] \<and> hd (lstrip l) \<noteq> CHR ''#'' \<and> hd (lstrip l) \<noteq> CHR ''!''"
        by auto
      with l have "u \<noteq> [] \<and> \<not> startswith u ''#''" by (simp add: url_part_bang_clean_iff)
      with ch T [of r] show "\<exists>u. ?T r = Inr u \<and> u \<noteq> [] \<and> \<not> startswith u ''#''" by simp
    qed
  qed
qed

theorem feed_selector_clean_witness:
  "(\<forall>r. \<exists>u. RssDiscordBot_get_random_feed_url
          ''# comment\<newline>\<newline> http://example.com/feed.xml news'' r = Inr u \<and>
        u \<noteq> [] \<and> \<not> startswith u ''#'') \<and>
   (\<forall>r. \<exists>u. RssTweetBot_get_random_feed_url
          ''# comment\<newline>\<newline> http://example.com/feed.xml !news'' r = Inr u \<and>
        u \<noteq> [] \<and> \<not> startswith u ''#'')"
  using feed_selector_clean [of "''# comment\<newline>\<newline> http://example.com/feed.xml news''"]
    feed_selector_clean [of "''# comment\<newline>\<newline> http://example.com/feed.xml !news''"]
  by (simp add: splitlines_def is_linebreak_def usable_def startswith_def isspace_def lstrip_def)

text \<open>
  C4: when every line of the feed list is empty or begins with \<^verbatim>\<open>#\<close>, so that
  \<^verbatim>\<open>valid_feeds\<close> stays empty, \<^verbatim>\<open>get_random_feed_url\<close> returns no value for any draw: it
  raises the \<^verbatim>\<open>IndexError\<close> of \<^verbatim>\<open>random.choice\<close> on an empty sequence.
\<close>

theorem empty_feed_list_raises:
  assumes "\<forall>l\<in>set (splitlines file_text). l = [] \<or> startswith l ''#''"
  shows "RssTweetBot_get_random_feed_url file_text r =
           Inl (IndexError ''Cannot choose from an empty sequence'')"
proof -
  have "filter usable (splitlines file_text) = []"
    using assms by (auto simp: filter_empty_conv usable_def)
  then show ?thesis
    by (simp add: RssTweetBot_get_random_feed_url_def RssTweetBot_valid_feeds_eq random_choice_def)
qed

theorem empty_feed_list_raises_witness:
  "RssTweetBot_get_random_feed_url ''# comment\<newline>\<newline>#other\<newline>'' 7 =
     Inl (IndexError ''Cannot choose from an empty sequence'')"
  using empty_feed_list_raises [of "''# comment\<newline>\<newline>#other\<newline>''" 7]
  by (simp add: splitlines_def is_linebreak_def startswith_def)

text \<open>
  C10: in the whitespace variants of \<^verbatim>\<open>discord.py\<close> and \<^verbatim>\<open>slack.py\<close>, a feed list with a line
  made of whitespace only (one space, say) makes \<^verbatim>\<open>get_random_feed_url\<close> raise
  \<^verbatim>\<open>IndexError: list index out of range\<close>: the line is not empty and does not start with
  \<^verbatim>\<open>#\<close>, \<^verbatim>\<open>line.split()\<close> is the empty list, and \<^verbatim>\<open>[0]\<close> fails. Nothing inside the method
  catches it, whatever the other lines and the draw are.
\<close>

theorem whitespace_line_IndexError:
  assumes "\<exists>l\<in>set (splitlines file_text). l \<noteq> [] \<and> (\<forall>c\<in>set l. isspace c)"
  shows "RssDiscordBot_get_random_feed_url file_text r =
           Inl (IndexError ''list index out of range'') \<and>
         RssSlackBot_get_random_feed_url file_text r =
           Inl (IndexError ''list index out of range'')"
  using RssDiscordBot_valid_feeds_blank [OF assms, of "[]"]
  by (simp add: RssDiscordBot_get_random_feed_url_def RssSlackBot_get_random_feed_url_def)

theorem whitespace_line_IndexError_witness:
  "usable '' '' \<and> split_ws '' '' = [] \<and>
   RssDiscordBot_get_random_feed_url ''http://example.com/feed.xml\<newline> '' 0 =
     Inl (IndexError ''list index out of range'') \<and>
   RssSlackBot_get_random_feed_url ''http://example.com/feed.xml\<newline> '' 0 =
     Inl (IndexError ''list index out of range'')"
  using whitespace_line_IndexError [of "''http://example.com/feed.xml\<newline> ''" 0]
  by (simp add: splitlines_def is_linebreak_def isspace_def usable_def startswith_def split_ws_def)

section \<open>Article fetcher: the scan\<close>

lemma any_posted_eq:
  "any_posted h e =
     (if h = [] then Inr False
      else (case entry_link e of
              None \<Rightarrow> Inl (AttributeError ''link'')
            | Some l \<Rightarrow> Inr (l \<in> urls h)))"
proof (induction h)
  case Nil
  then show ?case by simp
next
  case (Cons post posts)
  then show ?case
    by (cases posts) (auto simp: urls_def split: option.splits)
qed

lemma any_posted_known:
  "known_posted h e \<Longrightarrow> any_posted h e = Inr True"
  by (auto simp: known_posted_def any_posted_eq urls_def split: option.splits)



lemma first_unposted_stop:
  assumes "\<not> known_posted (posted_articles self) e"
  shows "RssTweetBot_first_unposted self fu (e # suf) =
     (if posted_articles self \<noteq> [] \<and> entry_link e = None then Inl (AttributeError ''link'')
      else (case entry_title e of
              None \<Rightarrow> Inl (AttributeError ''title'')
            | Some t \<Rightarrow>
                (case entry_link e of
                   None \<Rightarrow> Inl (AttributeError ''link'')
                 | Some l \<Rightarrow> Inr (article_of t l e))))"
  using assms
  by (auto simp: known_posted_def any_posted_eq article_of_def split: option.splits)

lemma first_unposted_Inr:
  "RssTweetBot_first_unposted self fu es = Inr a \<Longrightarrow> link a \<notin> urls (posted_articles self)"
proof (induction es)
  case Nil
  then show ?case by simp
next
  case (Cons e es)
  show ?case
  proof (cases "known_posted (posted_articles self) e")
    case True
    with Cons show ?thesis by (simp add: any_posted_known)
  next
    case False
    from Cons.prems show ?thesis
      unfolding first_unposted_stop [OF False]
      using False
      by (auto simp: known_posted_def article_of_def split: if_splits option.splits)
  qed
qed




text \<open>
  C2: when the history holds a record with url \<open>U\<close>, \<^verbatim>\<open>get_latest_article\<close> returns, for no
  feed, an article whose link is \<open>U\<close>; and an article \<open>b\<close> is returned for some feed exactly
  when no history record has the url \<open>link b\<close>.
\<close>

theorem never_returns_posted_url:
  "(U \<in> urls (posted_articles self) \<longrightarrow>
      (\<forall>a. RssTweetBot_get_latest_article self fu entries = Inr a \<longrightarrow> link a \<noteq> U)) \<and>
   ((\<exists>fu' es. RssTweetBot_get_latest_article self fu' es = Inr b) \<longleftrightarrow>
      link b \<notin> urls (posted_articles self))"
proof (intro conjI impI allI iffI)
  fix a
  assume U: "U \<in> urls (posted_articles self)"
    and r: "RssTweetBot_get_latest_article self fu entries = Inr a"
  from r have "RssTweetBot_first_unposted self fu entries = Inr a"
    by (simp add: RssTweetBot_get_latest_article_def split: if_splits)
  from first_unposted_Inr [OF this] U show "link a \<noteq> U" by auto
next
  assume "\<exists>fu' es. RssTweetBot_get_latest_article self fu' es = Inr b"
  then obtain fu' es where "RssTweetBot_first_unposted self fu' es = Inr b"
    by (auto simp: RssTweetBot_get_latest_article_def split: if_splits)
  from first_unposted_Inr [OF this] show "link b \<notin> urls (posted_articles self)" .
next
  assume n: "link b \<notin> urls (posted_articles self)"
  let ?e = "\<lparr>entry_title = Some (title b), entry_link = Some (link b),
      entry_description = Some (description b),
      entry_content = Some (content b, []), entry_author = None, entry_published = None\<rparr>"
  have "RssTweetBot_get_latest_article self [] [?e] = Inr b"
    using n by (simp add: RssTweetBot_get_latest_article_def any_posted_eq)
  then show "\<exists>fu' es. RssTweetBot_get_latest_article self fu' es = Inr b" by blast
qed

theorem never_returns_posted_url_witness:
  "''A'' \<in> urls (posted_articles example_bot) \<and>
   RssTweetBot_get_latest_article example_bot ''f'' [example_entry ''A'', example_entry ''B''] =
     Inr example_tweet_article \<and>
   link example_tweet_article \<noteq> ''A'' \<and>
   (\<exists>fu' es. RssTweetBot_get_latest_article example_bot fu' es = Inr example_tweet_article)"
  using never_returns_posted_url [of "''A''" example_bot "''f''" "[example_entry ''A'', example_entry ''B'']"
      example_tweet_article]
  by (simp add: urls_def example_bot_def example_history_def example_entry_def
      example_tweet_article_def RssTweetBot_get_latest_article_def)

section \<open>JSON text: what is written is read back\<close>

lemma hex_value_hex_digit: "n < 16 \<Longrightarrow> hex_value (hex_digit n) = Some n"
proof -
  have all: "\<forall>k\<in>set [0..<16]. hex_value (hex_digit k) = Some k"
    by code_simp
  assume "n < 16"
  then have "n \<in> set [0..<16]" by simp
  with all show ?thesis by blast
qed

lemma decode_escape:
  "decode_uXXXX [CHR ''0'', CHR ''0'', hex_digit (of_char c div 16), hex_digit (of_char c mod 16)] = Some c"
proof -
  have lt: "(of_char c :: nat) < 256" by (rule nat_of_char_less_256)
  then have hi: "(of_char c :: nat) div 16 < 16" by arith
  have lo: "(of_char c :: nat) mod 16 < 16" by simp
  have z: "hex_value (CHR ''0'') = Some 0" by (simp add: hex_value_def)
  have "char_of (16 * ((of_char c :: nat) div 16) + of_char c mod 16) = c"
    by simp
  then show ?thesis
    by (simp add: decode_uXXXX_def z hex_value_hex_digit [OF hi] hex_value_hex_digit [OF lo])
qed

lemma scanstring_escape: "scanstring (escape_char c @ s) = prepend c (scanstring s)"
proof -
  consider "c = CHR 0x22" | "c = CHR 0x5C" | "c = CHR 0x0A" | "c = CHR 0x0D" | "c = CHR 0x09"
    | "c = CHR 0x0C" | "c = CHR 0x08"
    | "c \<noteq> CHR 0x22" "c \<noteq> CHR 0x5C" "32 \<le> (of_char c :: nat)" "(of_char c :: nat) \<le> 126"
    | "c \<notin> {CHR 0x22, CHR 0x5C, CHR 0x0A, CHR 0x0D, CHR 0x09, CHR 0x0C, CHR 0x08}"
      "\<not> (32 \<le> (of_char c :: nat) \<and> (of_char c :: nat) \<le> 126)"
    by auto
  then show ?thesis
  proof cases
    case 8
    then show ?thesis by (auto simp: escape_char_def backslash_def)
  next
    case 9
    then show ?thesis by (simp add: escape_char_def decode_escape)
  qed (simp_all add: escape_char_def backslash_def)
qed

lemma scanstring_encoded:
  "scanstring (concat (map escape_char t) @ CHR 0x22 # rest) = Some (t, rest)"
  by (induction t) (simp_all add: scanstring_escape prepend_def)

lemma parse_value_string:
  "parse_value (Suc n) (encode_string t @ rest) = Some (JStr t, rest)"
  by (simp add: encode_string_def scanstring_encoded)

lemma scanstring_key_url: "scanstring (tl (encode_string ''url'') @ rest) = Some (''url'', rest)"
  using scanstring_encoded [of "''url''" rest] by (simp add: encode_string_def)

lemma scanstring_key_date: "scanstring (tl (encode_string ''date'') @ rest) = Some (''date'', rest)"
  using scanstring_encoded [of "''date''" rest] by (simp add: encode_string_def)

lemma skip_ws_quote: "skip_ws (encode_string t @ rest) = encode_string t @ rest"
  by (simp add: skip_ws_def encode_string_def json_ws_def)



lemma skip_ws_Cons: "skip_ws (c # s) = (if json_ws c then skip_ws s else c # s)"
  by (simp add: skip_ws_def)

lemma encode_string_Cons: "encode_string k @ r = CHR 0x22 # tl (encode_string k) @ r"
  by (simp add: encode_string_def)

lemma parse_members_date:
  "parse_members (Suc (Suc n)) [(''url'', JStr u)]
      (tl (encode_string ''date'') @ '': '' @ encode_string d @ ''\<newline>  }'' @ rest) =
      Some ([(''url'', JStr u), (''date'', JStr d)], rest)"
  apply (subst parse_members.simps)
  apply (simp only: scanstring_key_date option.case prod.case)
  apply (simp add: skip_ws_Cons json_ws_def skip_ws_quote parse_value_string
      del: parse_value.simps)
  done

lemma parse_members_url:
  "parse_members (Suc (Suc (Suc n))) []
      (tl (encode_string ''url'') @ '': '' @ encode_string u @
       '',\<newline>    '' @ CHR 0x22 # tl (encode_string ''date'') @ '': '' @ encode_string d @
       ''\<newline>  }'' @ rest) =
      Some ([(''url'', JStr u), (''date'', JStr d)], rest)"
  apply (subst parse_members.simps)
  apply (simp only: scanstring_key_url option.case prod.case)
  apply (simp add: skip_ws_Cons json_ws_def skip_ws_quote parse_value_string
      parse_members_date [simplified append.simps]
      del: parse_value.simps parse_members.simps)
  done

lemma dump_record_eq:
  "dump_record post @ rest =
     CHR ''{'' # ''\<newline>    '' @ CHR 0x22 # tl (encode_string ''url'') @ '': '' @ encode_string (url post) @
       '',\<newline>    '' @ CHR 0x22 # tl (encode_string ''date'') @ '': '' @ encode_string (date post) @
       ''\<newline>  }'' @ rest"
  by (simp add: dump_record_def encode_string_def)

lemma parse_value_record:
  "parse_value (Suc (Suc (Suc (Suc n)))) (dump_record post @ rest) = Some (record_value post, rest)"
  apply (subst dump_record_eq)
  apply (simp add: record_value_def skip_ws_Cons json_ws_def
      parse_members_url [simplified append.simps]
      del: parse_members.simps)
  done

lemma dump_items_start: "h \<noteq> [] \<Longrightarrow> \<exists>t. dump_items h = CHR ''{'' # t"
  by (cases h rule: dump_items.cases) (simp_all add: dump_record_def)

lemma length_dump_items: "length h \<le> length (dump_items h)"
  by (induction h rule: dump_items.induct) (simp_all add: dump_record_def)

lemma parse_items_records:
  "h \<noteq> [] \<Longrightarrow> length h + 4 \<le> k \<Longrightarrow>
   parse_items k (dump_items h @ ''\<newline>]'' @ rest) = Some (map record_value h, rest)"
proof (induction h arbitrary: k rule: dump_items.induct)
  case 1
  then show ?case by simp
next
  case (2 post)
  define n where "n = k - 5"
  from 2 have k: "k = Suc (Suc (Suc (Suc (Suc n))))"
    unfolding n_def by simp
  show ?case
    unfolding k
    apply (subst parse_items.simps)
    apply (simp add: parse_value_record skip_ws_Cons json_ws_def
        del: parse_value.simps parse_items.simps)
    done
next
  case (3 post v va)
  define n where "n = k - 5"
  from 3(3) have k: "k = Suc (Suc (Suc (Suc (Suc n))))"
    unfolding n_def by simp
  from 3(3) have n: "length (v # va) + 4 \<le> Suc (Suc (Suc (Suc n)))"
    unfolding n_def by simp
  from dump_items_start [of "v # va"] obtain t where t: "dump_items (v # va) = CHR ''{'' # t"
    by auto
  have ih: "parse_items (Suc (Suc (Suc (Suc n)))) (CHR ''{'' # t @ ''\<newline>]'' @ rest) =
      Some (map record_value (v # va), rest)"
    using 3(1) [of "Suc (Suc (Suc (Suc n)))"] n t by simp
  show ?case
    unfolding k
    apply (subst parse_items.simps)
    apply (simp add: parse_value_record skip_ws_Cons json_ws_def t ih [simplified append.simps]
        del: parse_value.simps parse_items.simps)
    done
qed

lemma json_loads_dump: "json_loads (json_dump h) = Some (JArr (map record_value h))"
proof (cases "h = []")
  case True
  then show ?thesis
    by (simp add: json_loads_def json_dump_def skip_ws_Cons json_ws_def skip_ws_def
        eval_nat_numeral)
next
  case False
  from dump_items_start [OF False] obtain t where t: "dump_items h = CHR ''{'' # t" by auto
  have "length h + 4 \<le> 2 * length (json_dump h) + 1"
    using length_dump_items [of h] False by (simp add: json_dump_def)
  from parse_items_records [OF False this, of "[]"]
  have "parse_items (2 * length (json_dump h) + 1) (CHR ''{'' # t @ ''\<newline>]'') =
      Some (map record_value h, [])"
    by (simp add: t)
  then have "parse_value (Suc (2 * length (json_dump h) + 1)) (json_dump h) =
      Some (JArr (map record_value h), [])"
    using False by (simp add: json_dump_def t skip_ws_Cons json_ws_def del: parse_items.simps)
  moreover have "skip_ws (json_dump h) = json_dump h"
    using False by (simp add: json_dump_def skip_ws_Cons json_ws_def)
  ultimately show ?thesis
    by (simp add: json_loads_def skip_ws_def del: parse_value.simps)
qed

lemma as_records_map: "as_records (map record_value h) = Some h"
  by (induction h) (simp_all add: record_value_def)

lemma as_history_dump:
  "(case json_loads (json_dump h) of None \<Rightarrow> None | Some v \<Rightarrow> as_history v) = Some h"
  by (simp add: json_loads_dump as_records_map)

lemma load_history_dump:
  "load_history \<lparr>posted_articles = m, history_file = Some (json_dump h)\<rparr> = Inr h"
  by (simp add: load_history_def json_loads_dump as_records_map)

lemma history_file_save:
  "history_file (save_history U now self) =
     Some (json_dump (posted_articles self @ [\<lparr>url = U, date = now\<rparr>]))"
  by (simp add: save_history_def Let_def)

lemma posted_articles_save:
  "posted_articles (save_history U now self) = posted_articles self @ [\<lparr>url = U, date = now\<rparr>]"
  by (simp add: save_history_def Let_def)

text \<open>
  C5: from any state of the bot, two calls of \<^verbatim>\<open>save_history\<close> with the same url \<open>U\<close>
  leave a file from which \<^verbatim>\<open>load_history\<close>, whatever the memory of the bot that reads it,
  returns the starting records followed by two records with url \<open>U\<close>, one per call. A
  bot built anew on that file holds a history in which the number of records with url
  \<open>U\<close> has grown by two: the store removes no duplicate.
\<close>

theorem save_twice_two_records:
  "load_history \<lparr>posted_articles = m,
       history_file = history_file (save_history U t2 (save_history U t1 self))\<rparr> =
     Inr (posted_articles self @ [\<lparr>url = U, date = t1\<rparr>, \<lparr>url = U, date = t2\<rparr>]) \<and>
   (\<exists>h. init (history_file (save_history U t2 (save_history U t1 self))) =
          Inr \<lparr>posted_articles = h,
               history_file = history_file (save_history U t2 (save_history U t1 self))\<rparr> \<and>
        count_url U h = count_url U (posted_articles self) + 2)"
  by (simp add: history_file_save posted_articles_save load_history_dump init_def count_url_def)

theorem save_twice_two_records_witness:
  "load_history (forgetful_bot (history_file
      (save_history ''A'' ''2024-01-03T00:00:00''
        (save_history ''A'' ''2024-01-02T00:00:00'' example_bot)))) =
     Inr [\<lparr>url = ''A'', date = ''2024-01-01T00:00:00''\<rparr>,
          \<lparr>url = ''A'', date = ''2024-01-02T00:00:00''\<rparr>,
          \<lparr>url = ''A'', date = ''2024-01-03T00:00:00''\<rparr>] \<and>
   count_url ''A'' (posted_articles example_bot) = 1 \<and>
   (\<exists>h. init (history_file
      (save_history ''A'' ''2024-01-03T00:00:00''
        (save_history ''A'' ''2024-01-02T00:00:00'' example_bot))) =
        Inr \<lparr>posted_articles = h, history_file = history_file
      (save_history ''A'' ''2024-01-03T00:00:00''
        (save_history ''A'' ''2024-01-02T00:00:00'' example_bot))\<rparr> \<and> count_url ''A'' h = 3)"
proof -
  note t = save_twice_two_records [of "[]" "''A''" "''2024-01-03T00:00:00''"
      "''2024-01-02T00:00:00''" example_bot]
  have p: "posted_articles example_bot = [\<lparr>url = ''A'', date = ''2024-01-01T00:00:00''\<rparr>]"
    by (simp add: example_bot_def example_history_def)
  have c: "count_url ''A'' (posted_articles example_bot) = 1"
    by (simp add: p count_url_def)
  from t have 1: "load_history \<lparr>posted_articles = [],
       history_file = history_file (save_history ''A'' ''2024-01-03T00:00:00''
         (save_history ''A'' ''2024-01-02T00:00:00'' example_bot))\<rparr> =
     Inr (posted_articles example_bot @ [\<lparr>url = ''A'', date = ''2024-01-02T00:00:00''\<rparr>,
       \<lparr>url = ''A'', date = ''2024-01-03T00:00:00''\<rparr>])"
    by (rule conjunct1)
  from t obtain h where h: "init (history_file
      (save_history ''A'' ''2024-01-03T00:00:00''
        (save_history ''A'' ''2024-01-02T00:00:00'' example_bot))) =
        Inr \<lparr>posted_articles = h, history_file = history_file
      (save_history ''A'' ''2024-01-03T00:00:00''
        (save_history ''A'' ''2024-01-02T00:00:00'' example_bot))\<rparr>"
    and "count_url ''A'' h = count_url ''A'' (posted_articles example_bot) + 2"
    by blast
  with c have "count_url ''A'' h = 3" by simp
  with h have 2: "\<exists>h. init (history_file
      (save_history ''A'' ''2024-01-03T00:00:00''
        (save_history ''A'' ''2024-01-02T00:00:00'' example_bot))) =
        Inr \<lparr>posted_articles = h, history_file = history_file
      (save_history ''A'' ''2024-01-03T00:00:00''
        (save_history ''A'' ''2024-01-02T00:00:00'' example_bot))\<rparr> \<and> count_url ''A'' h = 3"
    by blast
  from 1 have l1: "load_history (forgetful_bot (history_file
      (save_history ''A'' ''2024-01-03T00:00:00''
        (save_history ''A'' ''2024-01-02T00:00:00'' example_bot)))) =
     Inr [\<lparr>url = ''A'', date = ''2024-01-01T00:00:00''\<rparr>,
          \<lparr>url = ''A'', date = ''2024-01-02T00:00:00''\<rparr>,
          \<lparr>url = ''A'', date = ''2024-01-03T00:00:00''\<rparr>]"
    unfolding forgetful_bot_def p by simp
  from l1 c 2 show ?thesis by (intro conjI)
qed

text \<open>
  C6: \<^verbatim>\<open>save_history\<close> writes the JSON text of the appended list, and \<^verbatim>\<open>load_history\<close> on
  that file, from a bot with any memory or from a bot built anew, gives back the whole
  sequence: the earlier records, and a last record with the url that was saved and the
  timestamp text that was written.
\<close>

theorem save_load_roundtrip:
  "history_file (save_history U now self) =
     Some (json_dump (posted_articles self @ [\<lparr>url = U, date = now\<rparr>])) \<and>
   load_history \<lparr>posted_articles = m, history_file = history_file (save_history U now self)\<rparr> =
     Inr (posted_articles self @ [\<lparr>url = U, date = now\<rparr>]) \<and>
   init (history_file (save_history U now self)) =
     Inr \<lparr>posted_articles = posted_articles self @ [\<lparr>url = U, date = now\<rparr>],
          history_file = history_file (save_history U now self)\<rparr> \<and>
   (\<forall>h. load_history \<lparr>posted_articles = m,
             history_file = history_file (save_history U now self)\<rparr> = Inr h \<longrightarrow>
        last h = \<lparr>url = U, date = now\<rparr> \<and> butlast h = posted_articles self)"
  by (simp add: history_file_save load_history_dump init_def)

theorem save_load_roundtrip_witness:
  "history_file (save_history ''B'' ''2024-01-02T10:30:00.123456'' (forgetful_bot None)) =
     Some (''[\<newline>  {\<newline>    '' @ [CHR 0x22] @ ''url'' @ [CHR 0x22] @ '': '' @ [CHR 0x22] @ ''B'' @
           [CHR 0x22] @ '',\<newline>    '' @ [CHR 0x22] @ ''date'' @ [CHR 0x22] @ '': '' @ [CHR 0x22] @
           ''2024-01-02T10:30:00.123456'' @ [CHR 0x22] @ ''\<newline>  }\<newline>]'') \<and>
   load_history (forgetful_bot (history_file
       (save_history ''B'' ''2024-01-02T10:30:00.123456'' example_bot))) =
     Inr [\<lparr>url = ''A'', date = ''2024-01-01T00:00:00''\<rparr>,
          \<lparr>url = ''B'', date = ''2024-01-02T10:30:00.123456''\<rparr>]"
proof -
  have "json_dump [\<lparr>url = ''B'', date = ''2024-01-02T10:30:00.123456''\<rparr>] =
      ''[\<newline>  {\<newline>    '' @ [CHR 0x22] @ ''url'' @ [CHR 0x22] @ '': '' @ [CHR 0x22] @ ''B'' @
           [CHR 0x22] @ '',\<newline>    '' @ [CHR 0x22] @ ''date'' @ [CHR 0x22] @ '': '' @ [CHR 0x22] @
           ''2024-01-02T10:30:00.123456'' @ [CHR 0x22] @ ''\<newline>  }\<newline>]''"
    by code_simp
  note d = this
  note t1 = save_load_roundtrip [of "''B''" "''2024-01-02T10:30:00.123456''" "forgetful_bot None" "[]"]
  note t2 = save_load_roundtrip [of "''B''" "''2024-01-02T10:30:00.123456''" example_bot "[]"]
  have p: "posted_articles example_bot = [\<lparr>url = ''A'', date = ''2024-01-01T00:00:00''\<rparr>]"
    by (simp add: example_bot_def example_history_def)
  from t1 have "history_file (save_history ''B'' ''2024-01-02T10:30:00.123456'' (forgetful_bot None)) =
     Some (json_dump (posted_articles (forgetful_bot None) @
       [\<lparr>url = ''B'', date = ''2024-01-02T10:30:00.123456''\<rparr>]))"
    by (rule conjunct1)
  then have a: "history_file (save_history ''B'' ''2024-01-02T10:30:00.123456'' (forgetful_bot None)) =
     Some (json_dump [\<lparr>url = ''B'', date = ''2024-01-02T10:30:00.123456''\<rparr>])"
    by (simp add: forgetful_bot_def)
  from t2 have "load_history \<lparr>posted_articles = [], history_file = history_file
       (save_history ''B'' ''2024-01-02T10:30:00.123456'' example_bot)\<rparr> =
     Inr (posted_articles example_bot @ [\<lparr>url = ''B'', date = ''2024-01-02T10:30:00.123456''\<rparr>])"
    by blast
  then have b: "load_history (forgetful_bot (history_file
       (save_history ''B'' ''2024-01-02T10:30:00.123456'' example_bot))) =
     Inr [\<lparr>url = ''A'', date = ''2024-01-01T00:00:00''\<rparr>,
          \<lparr>url = ''B'', date = ''2024-01-02T10:30:00.123456''\<rparr>]"
    unfolding forgetful_bot_def p by simp
  from a b show ?thesis unfolding d by (intro conjI)
qed

section \<open>Summarizer: the text that is sent\<close>

lemma user_content_discord:
  "user_content (RssDiscordBot_summary_request a) =
     ''Title: '' @ title a @ ''\<newline>'' @ ''Content: '' @ truncated_content a"
  by (simp add: user_content_def RssDiscordBot_summary_request_def)

lemma user_content_slack:
  "user_content (RssSlackBot_summary_request a) =
     ''Title: '' @ title a @ ''\<newline>'' @ ''Content: '' @ truncated_content a"
  by (simp add: user_content_def RssSlackBot_summary_request_def)

lemma truncated_content_eq:
  "truncated_content a =
     (if 500 < length (strip (description a @ '' '' @ content a))
      then take 500 (strip (description a @ '' '' @ content a)) @ ''...''
      else strip (description a @ '' '' @ content a))"
  by (simp add: truncated_content_def combined_content_def max_content_length_def)

text \<open>
  C7: what \<^verbatim>\<open>generate_summary\<close> sends, in \<^verbatim>\<open>discord.py\<close> and in \<^verbatim>\<open>slack.py\<close>. An endpoint
  that hands back the user message it received shows that the message is \<^verbatim>\<open>Title:\<close>, the
  title, a line break, \<^verbatim>\<open>Content:\<close> and the stripped text of description, a space and
  content: that text unchanged when it has 500 characters or fewer, and otherwise its
  first 500 characters followed by \<^verbatim>\<open>...\<close>. Whatever the endpoint, the method uses its
  response to one request only, which carries that user message.
\<close>

theorem summary_content_truncated:
  fixes a :: "'a article_scheme"
  shows
  "RssDiscordBot_generate_summary echo_endpoint a =
     Inl (Exception (''Ollama API error: '' @ ''Title: '' @ title a @ ''\<newline>'' @ ''Content: '' @
       (if 500 < length (strip (description a @ '' '' @ content a))
        then take 500 (strip (description a @ '' '' @ content a)) @ ''...''
        else strip (description a @ '' '' @ content a)))) \<and>
   RssSlackBot_generate_summary echo_endpoint a =
     Inl (Exception (''Ollama API error: '' @ ''Title: '' @ title a @ ''\<newline>'' @ ''Content: '' @
       (if 500 < length (strip (description a @ '' '' @ content a))
        then take 500 (strip (description a @ '' '' @ content a)) @ ''...''
        else strip (description a @ '' '' @ content a)))) \<and>
   (\<exists>q. user_content q =
          ''Title: '' @ title a @ ''\<newline>'' @ ''Content: '' @
            (if 500 < length (strip (description a @ '' '' @ content a))
             then take 500 (strip (description a @ '' '' @ content a)) @ ''...''
             else strip (description a @ '' '' @ content a)) \<and>
        (\<forall>ep. RssDiscordBot_generate_summary ep a =
               RssDiscordBot_generate_summary (answering (ep q)) a)) \<and>
   (\<exists>q. user_content q =
          ''Title: '' @ title a @ ''\<newline>'' @ ''Content: '' @
            (if 500 < length (strip (description a @ '' '' @ content a))
             then take 500 (strip (description a @ '' '' @ content a)) @ ''...''
             else strip (description a @ '' '' @ content a)) \<and>
        (\<forall>ep. RssSlackBot_generate_summary ep a =
               RssSlackBot_generate_summary (answering (ep q)) a))"
proof (intro conjI)
  show "RssDiscordBot_generate_summary echo_endpoint a =
     Inl (Exception (''Ollama API error: '' @ ''Title: '' @ title a @ ''\<newline>'' @ ''Content: '' @
       (if 500 < length (strip (description a @ '' '' @ content a))
        then take 500 (strip (description a @ '' '' @ content a)) @ ''...''
        else strip (description a @ '' '' @ content a))))"
    unfolding truncated_content_eq [symmetric]
    by (simp add: RssDiscordBot_generate_summary_def echo_endpoint_def user_content_discord)
  show "RssSlackBot_generate_summary echo_endpoint a =
     Inl (Exception (''Ollama API error: '' @ ''Title: '' @ title a @ ''\<newline>'' @ ''Content: '' @
       (if 500 < length (strip (description a @ '' '' @ content a))
        then take 500 (strip (description a @ '' '' @ content a)) @ ''...''
        else strip (description a @ '' '' @ content a))))"
    unfolding truncated_content_eq [symmetric]
    by (simp add: RssSlackBot_generate_summary_def echo_endpoint_def user_content_slack)
  have "user_content (RssDiscordBot_summary_request a) =
          ''Title: '' @ title a @ ''\<newline>'' @ ''Content: '' @
            (if 500 < length (strip (description a @ '' '' @ content a))
             then take 500 (strip (description a @ '' '' @ content a)) @ ''...''
             else strip (description a @ '' '' @ content a))"
    unfolding truncated_content_eq [symmetric] by (rule user_content_discord)
  moreover have "\<forall>ep. RssDiscordBot_generate_summary ep a =
      RssDiscordBot_generate_summary (answering (ep (RssDiscordBot_summary_request a))) a"
    by (simp add: RssDiscordBot_generate_summary_def answering_def)
  ultimately show "\<exists>q. user_content q =
          ''Title: '' @ title a @ ''\<newline>'' @ ''Content: '' @
            (if 500 < length (strip (description a @ '' '' @ content a))
             then take 500 (strip (description a @ '' '' @ content a)) @ ''...''
             else strip (description a @ '' '' @ content a)) \<and>
        (\<forall>ep. RssDiscordBot_generate_summary ep a =
               RssDiscordBot_generate_summary (answering (ep q)) a)"
    by blast
  have "user_content (RssSlackBot_summary_request a) =
          ''Title: '' @ title a @ ''\<newline>'' @ ''Content: '' @
            (if 500 < length (strip (description a @ '' '' @ content a))
             then take 500 (strip (description a @ '' '' @ content a)) @ ''...''
             else strip (description a @ '' '' @ content a))"
    unfolding truncated_content_eq [symmetric] by (rule user_content_slack)
  moreover have "\<forall>ep. RssSlackBot_generate_summary ep a =
      RssSlackBot_generate_summary (answering (ep (RssSlackBot_summary_request a))) a"
    by (simp add: RssSlackBot_generate_summary_def answering_def)
  ultimately show "\<exists>q. user_content q =
          ''Title: '' @ title a @ ''\<newline>'' @ ''Content: '' @
            (if 500 < length (strip (description a @ '' '' @ content a))
             then take 500 (strip (description a @ '' '' @ content a)) @ ''...''
             else strip (description a @ '' '' @ content a)) \<and>
        (\<forall>ep. RssSlackBot_generate_summary ep a =
               RssSlackBot_generate_summary (answering (ep q)) a)"
    by blast
qed

theorem summary_content_truncated_witness:
  "RssDiscordBot_generate_summary echo_endpoint long_article =
     Inl (Exception (''Ollama API error: Title: T\<newline>Content: '' @ replicate 500 (CHR ''x'') @ ''...'')) \<and>
   RssSlackBot_generate_summary echo_endpoint short_article =
     Inl (Exception ''Ollama API error: Title: T\<newline>Content: About it'')"
proof -
  have l: "strip (description long_article @ '' '' @ content long_article) = replicate 600 (CHR ''x'')"
    by (simp add: long_article_def strip_def lstrip_def rstrip_def isspace_def)
  have s: "strip (description short_article @ '' '' @ content short_article) = ''About it''"
    by (simp add: short_article_def strip_def lstrip_def rstrip_def isspace_def)
  have tl: "title long_article = ''T''" by (simp add: long_article_def)
  have ts: "title short_article = ''T''" by (simp add: short_article_def)
  from summary_content_truncated [of long_article]
  have 1: "RssDiscordBot_generate_summary echo_endpoint long_article =
     Inl (Exception (''Ollama API error: Title: T\<newline>Content: '' @ replicate 500 (CHR ''x'') @ ''...''))"
    unfolding l tl by simp
  from summary_content_truncated [of short_article]
  have 2: "RssSlackBot_generate_summary echo_endpoint short_article =
     Inl (Exception ''Ollama API error: Title: T\<newline>Content: About it'')"
    unfolding s ts by simp
  from 1 2 show ?thesis by (intro conjI)
qed

section \<open>The URL step\<close>

lemma startswith_iff: "startswith s p \<longleftrightarrow> (\<exists>q. s = p @ q)"
proof
  assume "startswith s p"
  then have "s = p @ drop (length p) s"
    by (metis append_take_drop_id startswith_def)
  then show "\<exists>q. s = p @ q" ..
next
  assume "\<exists>q. s = p @ q"
  then show "startswith s p" by (auto simp: startswith_def)
qed

lemma contains_iff: "contains s sub \<longleftrightarrow> (\<exists>p q. s = p @ sub @ q)"
proof (induction s)
  case Nil
  then show ?case by simp
next
  case (Cons c cs)
  show ?case
  proof
    assume "contains (c # cs) sub"
    then consider "startswith (c # cs) sub" | "contains cs sub" by auto
    then show "\<exists>p q. c # cs = p @ sub @ q"
    proof cases
      case 1
      then obtain q where "c # cs = sub @ q" by (auto simp: startswith_iff)
      then have "c # cs = [] @ sub @ q" by simp
      then show ?thesis by blast
    next
      case 2
      with Cons obtain p q where "cs = p @ sub @ q" by blast
      then have "c # cs = (c # p) @ sub @ q" by simp
      then show ?thesis by blast
    qed
  next
    assume "\<exists>p q. c # cs = p @ sub @ q"
    then obtain p q where d: "c # cs = p @ sub @ q" by blast
    show "contains (c # cs) sub"
    proof (cases p)
      case Nil
      with d have "startswith (c # cs) sub" by (auto simp: startswith_iff)
      then show ?thesis by simp
    next
      case (Cons x p')
      with d have "cs = p' @ sub @ q" by simp
      with Cons.IH have "contains cs sub" by blast
      then show ?thesis by simp
    qed
  qed
qed

lemma contains_append_right: "contains (xs @ sub) sub"
  using contains_iff [of "xs @ sub" sub] by (metis append_Nil2)

lemma contains_prepend: "contains s sub \<Longrightarrow> contains (xs @ s) sub"
  by (metis append.assoc contains_iff)

lemma contains_head: "contains (sub @ s) sub"
  by (metis append_Nil contains_iff)

lemma contains_str_replace:
  "old \<noteq> [] \<Longrightarrow> contains s old \<Longrightarrow> contains (str_replace old new s) new"
proof (induction old new s rule: str_replace.induct)
  case (1 old new)
  then show ?case by simp
next
  case (2 old new c cs)
  show ?case
  proof (cases "startswith (c # cs) old")
    case True
    with 2(4) show ?thesis by (simp add: contains_head)
  next
    case False
    with 2(5) have "contains cs old" by simp
    with 2(3) [OF 2(4) False 2(4)] have "contains (str_replace old new cs) new" by simp
    then have "contains ([c] @ str_replace old new cs) new" by (rule contains_prepend)
    with False 2(4) show ?thesis by simp
  qed
qed

text \<open>
  C8: in \<^verbatim>\<open>local.py\<close> the text handed to \<^verbatim>\<open>post_tweet\<close> always contains the article's link.
  A generated text that contains the link is posted unchanged; otherwise one that contains
  \<^verbatim>\<open>[URL]\<close> is posted with \<^verbatim>\<open>replace('[URL]', link)\<close> applied; otherwise the link is
  appended to the right-stripped text after one space.
\<close>

theorem posted_tweet_contains_link:
  fixes a :: "'a article_scheme"
  shows "contains (ensure_url tweet a) (link a) \<and>
         (contains tweet (link a) \<longrightarrow> ensure_url tweet a = tweet) \<and>
         (\<not> contains tweet (link a) \<and> contains tweet ''[URL]'' \<longrightarrow>
            ensure_url tweet a = str_replace ''[URL]'' (link a) tweet) \<and>
         (\<not> contains tweet (link a) \<and> \<not> contains tweet ''[URL]'' \<longrightarrow>
            ensure_url tweet a = rstrip tweet @ '' '' @ link a)"
proof -
  have "contains (ensure_url tweet a) (link a)"
  proof (cases "contains tweet (link a)")
    case True
    then show ?thesis by (simp add: ensure_url_def)
  next
    case False
    show ?thesis
    proof (cases "contains tweet ''[URL]''")
      case True
      then have "contains (str_replace ''[URL]'' (link a) tweet) (link a)"
        by (intro contains_str_replace) simp_all
      with False True show ?thesis by (simp add: ensure_url_def)
    next
      case no: False
      have "contains ((rstrip tweet @ '' '') @ link a) (link a)"
        by (rule contains_append_right)
      with False no show ?thesis by (simp add: ensure_url_def)
    qed
  qed
  then show ?thesis by (simp add: ensure_url_def)
qed

theorem posted_tweet_contains_link_witness:
  "ensure_url ''Big news: http://example.com/1 #rss'' short_article = ''Big news: http://example.com/1 #rss'' \<and>
   ensure_url ''Read [URL] now, or later: [URL]'' short_article =
     ''Read http://example.com/1 now, or later: http://example.com/1'' \<and>
   ensure_url ''Big news  '' short_article = ''Big news http://example.com/1'' \<and>
   contains (ensure_url ''Big news  '' short_article) (link short_article)"
  using posted_tweet_contains_link [of "''Big news: http://example.com/1 #rss''" short_article]
    posted_tweet_contains_link [of "''Read [URL] now, or later: [URL]''" short_article]
    posted_tweet_contains_link [of "''Big news  ''" short_article]
  by (simp add: short_article_def startswith_def rstrip_def isspace_def)

section \<open>Summarizer: the response\<close>

lemma getitem_Inr: "getitem j k = Inr v \<longleftrightarrow> obj_lookup j k = Some v"
  by (cases j) (auto split: option.splits)

lemma getitem0_then_getitem:
  "getitem0 j = Inr c \<and> getitem c k = Inr v \<longleftrightarrow> arr_first j = Some c \<and> obj_lookup c k = Some v"
proof (cases j)
  case (JArr xs)
  then show ?thesis by (cases xs) (auto simp: getitem_Inr)
next
  case (JStr s)
  then show ?thesis by (cases s) auto
qed auto

lemma json_strip_Inr: "json_strip j = Inr s \<longleftrightarrow> (\<exists>t. j = JStr t \<and> s = strip t)"
  by (cases j) auto

lemma completion_text_Inr:
  "completion_text resp = Inr s \<longleftrightarrow>
     (\<exists>j t. response_json resp = Some j \<and> has_completion j t \<and> s = strip t)"
proof (cases "response_json resp")
  case None
  then show ?thesis by (simp add: completion_text_def)
next
  case (Some j)
  show ?thesis
  proof
    assume r: "completion_text resp = Inr s"
    with Some obtain choices where 1: "getitem j ''choices'' = Inr choices"
      by (auto simp: completion_text_def split: sum.splits)
    with r Some obtain choice where 2: "getitem0 choices = Inr choice"
      by (auto simp: completion_text_def split: sum.splits)
    with r Some 1 obtain message where 3: "getitem choice ''message'' = Inr message"
      by (auto simp: completion_text_def split: sum.splits)
    with r Some 1 2 obtain c where 4: "getitem message ''content'' = Inr c"
      by (auto simp: completion_text_def split: sum.splits)
    with r Some 1 2 3 have "json_strip c = Inr s"
      by (simp add: completion_text_def)
    then obtain t where 5: "c = JStr t" "s = strip t" by (auto simp: json_strip_Inr)
    from 2 3 have "arr_first choices = Some choice" "obj_lookup choice ''message'' = Some message"
      using getitem0_then_getitem [of choices choice "''message''" message] by simp_all
    with 1 4 5 have "has_completion j t"
      by (simp add: has_completion_def getitem_Inr)
    with Some 5 show "\<exists>j t. response_json resp = Some j \<and> has_completion j t \<and> s = strip t"
      by blast
  next
    assume "\<exists>j t. response_json resp = Some j \<and> has_completion j t \<and> s = strip t"
    with Some obtain t where h: "has_completion j t" and s: "s = strip t" by auto
    from h obtain choices where 1: "obj_lookup j ''choices'' = Some choices"
      by (auto simp: has_completion_def split: option.splits)
    with h obtain choice where 2: "arr_first choices = Some choice"
      by (auto simp: has_completion_def split: option.splits)
    with h 1 obtain message where 3: "obj_lookup choice ''message'' = Some message"
      by (auto simp: has_completion_def split: option.splits)
    with h 1 2 have 4: "obj_lookup message ''content'' = Some (JStr t)"
      by (simp add: has_completion_def)
    from 2 3 have "getitem0 choices = Inr choice" "getitem choice ''message'' = Inr message"
      using getitem0_then_getitem [of choices choice "''message''" message] by simp_all
    moreover from 1 have "getitem j ''choices'' = Inr choices" by (simp add: getitem_Inr)
    moreover from 4 have "getitem message ''content'' = Inr (JStr t)" by (simp add: getitem_Inr)
    ultimately show "completion_text resp = Inr s"
      using Some s by (simp add: completion_text_def)
  qed
qed

lemma completion_text_ok:
  "response_json resp = Some j \<Longrightarrow> has_completion j t \<Longrightarrow> completion_text resp = Inr (strip t)"
  by (auto simp: completion_text_Inr)

lemma completion_text_not_Exception: "completion_text resp \<noteq> Inl (Exception m)"
proof -
  have g: "\<And>j k. getitem j k \<noteq> Inl (Exception m)"
    subgoal for j k by (cases j) (auto split: option.splits)
    done
  have g0: "\<And>j. getitem0 j \<noteq> Inl (Exception m)"
    subgoal for j by (cases j) (auto split: list.splits)
    done
  have s: "\<And>j. json_strip j \<noteq> Inl (Exception m)"
    subgoal for j by (cases j) auto
    done
  show ?thesis
    using g g0 s by (auto simp: completion_text_def split: option.splits sum.splits)
qed

text \<open>
  C9, as stated: the summarizer raises an error if and only if the status of the response
  is not 200. This fails: the status is the only thing the code checks before it reads
  \<^verbatim>\<open>response.json()['choices'][0]['message']['content']\<close>, so a response with status 200
  and the body \<^verbatim>\<open>{}\<close> raises \<^verbatim>\<open>KeyError: 'choices'\<close>.
\<close>

theorem generate_summary_counterexample:
  "status_code empty_object_response = 200 \<and>
   RssDiscordBot_generate_summary (answering empty_object_response) short_article =
     Inl (KeyError ''choices'')"
  by (simp add: RssDiscordBot_generate_summary_def answering_def empty_object_response_def
      completion_text_def)

lemma cycle_summary_error:
  assumes "RssDiscordBot_get_random_feed_url (feed_list v) (draw v) = Inr fu"
    and "RssDiscordBot_get_latest_article self fu (now_fetch v) (web v fu) = Inr art"
    and "RssDiscordBot_generate_summary (endpoint v) art = Inl e"
  shows "cycle v self =
     (self, [LogInfo (''Selected feed: '' @ fu), LogInfo (''Found article: '' @ title art), LogError e])"
  using assms by (simp add: cycle_def)

text \<open>
  C9, amended: the summarizer raises its API error (\<^verbatim>\<open>Ollama API error:\<close> followed by the
  text of the response) if and only if the status is not 200. On status 200 with a body
  that has a string at \<^verbatim>\<open>choices[0].message.content\<close> it returns that string stripped, and
  it returns a value in no other case. In the loop of \<^verbatim>\<open>discord.py\<close>, an error raised by the
  summarizer is caught inside the cycle: the cycle logs it and leaves the bot unchanged,
  the loop sleeps for the interval and goes on with the next cycle.
\<close>

theorem generate_summary_status:
  fixes art :: discord_article
  shows
  "((\<exists>m. RssDiscordBot_generate_summary ep art = Inl (Exception m)) \<longleftrightarrow>
      status_code (ep (RssDiscordBot_summary_request art)) \<noteq> 200) \<and>
   (status_code (ep (RssDiscordBot_summary_request art)) \<noteq> 200 \<longrightarrow>
      RssDiscordBot_generate_summary ep art =
        Inl (Exception (''Ollama API error: '' @ response_text (ep (RssDiscordBot_summary_request art))))) \<and>
   (status_code (ep (RssDiscordBot_summary_request art)) = 200 \<and>
    response_json (ep (RssDiscordBot_summary_request art)) = Some j \<and> has_completion j t \<longrightarrow>
      RssDiscordBot_generate_summary ep art = Inr (strip t)) \<and>
   ((\<exists>s. RssDiscordBot_generate_summary ep art = Inr s) \<longleftrightarrow>
      status_code (ep (RssDiscordBot_summary_request art)) = 200 \<and>
      (\<exists>j t. response_json (ep (RssDiscordBot_summary_request art)) = Some j \<and>
             has_completion j t)) \<and>
   (RssDiscordBot_get_random_feed_url (feed_list v) (draw v) = Inr fu \<and>
    RssDiscordBot_get_latest_article self fu (now_fetch v) (web v fu) = Inr art \<and>
    RssDiscordBot_generate_summary (endpoint v) art = Inl e \<longrightarrow>
      main_loop (v # vs) self =
        (fst (main_loop vs self),
         [LogInfo (''Selected feed: '' @ fu), LogInfo (''Found article: '' @ title art),
          LogError e, LogInfo ''Sleeping for 3 seconds...'', Sleep 3] @ snd (main_loop vs self)))"
proof (intro conjI impI)
  show "(\<exists>m. RssDiscordBot_generate_summary ep art = Inl (Exception m)) \<longleftrightarrow>
      status_code (ep (RssDiscordBot_summary_request art)) \<noteq> 200"
    by (auto simp: RssDiscordBot_generate_summary_def Let_def completion_text_not_Exception)
next
  assume "status_code (ep (RssDiscordBot_summary_request art)) \<noteq> 200"
  then show "RssDiscordBot_generate_summary ep art =
        Inl (Exception (''Ollama API error: '' @ response_text (ep (RssDiscordBot_summary_request art))))"
    by (simp add: RssDiscordBot_generate_summary_def Let_def)
next
  assume "status_code (ep (RssDiscordBot_summary_request art)) = 200 \<and>
    response_json (ep (RssDiscordBot_summary_request art)) = Some j \<and> has_completion j t"
  then show "RssDiscordBot_generate_summary ep art = Inr (strip t)"
    by (simp add: RssDiscordBot_generate_summary_def Let_def completion_text_ok)
next
  show "(\<exists>s. RssDiscordBot_generate_summary ep art = Inr s) \<longleftrightarrow>
      status_code (ep (RssDiscordBot_summary_request art)) = 200 \<and>
      (\<exists>j t. response_json (ep (RssDiscordBot_summary_request art)) = Some j \<and>
             has_completion j t)"
    by (auto simp: RssDiscordBot_generate_summary_def Let_def completion_text_Inr)
next
  assume "RssDiscordBot_get_random_feed_url (feed_list v) (draw v) = Inr fu \<and>
    RssDiscordBot_get_latest_article self fu (now_fetch v) (web v fu) = Inr art \<and>
    RssDiscordBot_generate_summary (endpoint v) art = Inl e"
  then have "cycle v self =
     (self, [LogInfo (''Selected feed: '' @ fu), LogInfo (''Found article: '' @ title art), LogError e])"
    by (simp add: cycle_summary_error)
  then show "main_loop (v # vs) self =
        (fst (main_loop vs self),
         [LogInfo (''Selected feed: '' @ fu), LogInfo (''Found article: '' @ title art),
          LogError e, LogInfo ''Sleeping for 3 seconds...'', Sleep 3] @ snd (main_loop vs self))"
    by (simp add: split_beta)
qed

theorem generate_summary_status_witness:
  "RssDiscordBot_generate_summary (answering server_error_response) example_article =
     Inl (Exception ''Ollama API error: Internal Server Error'') \<and>
   RssDiscordBot_generate_summary (answering completion_response) example_article =
     Inr ''A short summary.'' \<and>
   main_loop [example_env server_error_response, example_env completion_response] example_bot =
     (\<lparr>posted_articles =
         [\<lparr>url = ''A'', date = ''2024-01-01T00:00:00''\<rparr>,
          \<lparr>url = ''B'', date = ''2024-01-02T00:00:05''\<rparr>],
       history_file =
         Some (json_dump [\<lparr>url = ''A'', date = ''2024-01-01T00:00:00''\<rparr>,
                          \<lparr>url = ''B'', date = ''2024-01-02T00:00:05''\<rparr>])\<rparr>,
      [LogInfo ''Selected feed: http://example.com/feed.xml'',
       LogInfo ''Found article: Title of B'',
       LogError (Exception ''Ollama API error: Internal Server Error''),
       LogInfo ''Sleeping for 3 seconds...'', Sleep 3,
       LogInfo ''Selected feed: http://example.com/feed.xml'',
       LogInfo ''Found article: Title of B'',
       LogInfo ''Generated summary: A short summary.'',
       LogInfo ''Posted to Discord successfully'',
       LogInfo ''Updated article history'',
       LogInfo ''Sleeping for 3 seconds...'', Sleep 3])"
proof -
  let ?v = "example_env server_error_response"
  have sel: "RssDiscordBot_get_random_feed_url (feed_list ?v) (draw ?v) =
      Inr ''http://example.com/feed.xml''"
    by code_simp
  have art: "RssDiscordBot_get_latest_article example_bot ''http://example.com/feed.xml''
      (now_fetch ?v) (web ?v ''http://example.com/feed.xml'') = Inr example_article"
    by code_simp
  have st: "status_code (answering server_error_response
      (RssDiscordBot_summary_request example_article)) \<noteq> 200"
    by (simp add: answering_def server_error_response_def)
  have ok: "status_code (answering completion_response
      (RssDiscordBot_summary_request example_article)) = 200 \<and>
    response_json (answering completion_response
      (RssDiscordBot_summary_request example_article)) =
      Some (completion_body '' A short summary. '') \<and>
    has_completion (completion_body '' A short summary. '') '' A short summary. ''"
    by (simp add: answering_def completion_response_def completion_body_def has_completion_def)
  have s: "strip '' A short summary. '' = ''A short summary.''"
    by (simp add: strip_def lstrip_def rstrip_def isspace_def)
  have rest: "main_loop [example_env completion_response] example_bot =
     (\<lparr>posted_articles =
         [\<lparr>url = ''A'', date = ''2024-01-01T00:00:00''\<rparr>,
          \<lparr>url = ''B'', date = ''2024-01-02T00:00:05''\<rparr>],
       history_file =
         Some (json_dump [\<lparr>url = ''A'', date = ''2024-01-01T00:00:00''\<rparr>,
                          \<lparr>url = ''B'', date = ''2024-01-02T00:00:05''\<rparr>])\<rparr>,
      [LogInfo ''Selected feed: http://example.com/feed.xml'',
       LogInfo ''Found article: Title of B'',
       LogInfo ''Generated summary: A short summary.'',
       LogInfo ''Posted to Discord successfully'',
       LogInfo ''Updated article history'',
       LogInfo ''Sleeping for 3 seconds...'', Sleep 3])"
    by code_simp
  have e: "endpoint ?v = answering server_error_response"
    by (simp add: example_env_def)
  have t: "title example_article = ''Title of B''"
    by (simp add: example_article_def)
  have rt: "response_text (answering server_error_response
      (RssDiscordBot_summary_request example_article)) = ''Internal Server Error''"
    by (simp add: answering_def server_error_response_def)
  note a = generate_summary_status [of "answering server_error_response" example_article
      "completion_body '' A short summary. ''" "'' A short summary. ''" ?v
      "''http://example.com/feed.xml''" example_bot
      "Exception ''Ollama API error: Internal Server Error''"
      "[example_env completion_response]"]
  note b = generate_summary_status [of "answering completion_response" example_article
      "completion_body '' A short summary. ''" "'' A short summary. ''"]
  from a st rt have 1: "RssDiscordBot_generate_summary (answering server_error_response) example_article =
     Inl (Exception ''Ollama API error: Internal Server Error'')"
    by simp
  from b ok s have 2: "RssDiscordBot_generate_summary (answering completion_response) example_article =
     Inr ''A short summary.''"
    by simp
  from a sel art 1 e have "main_loop [?v, example_env completion_response] example_bot =
        (fst (main_loop [example_env completion_response] example_bot),
         [LogInfo (''Selected feed: '' @ ''http://example.com/feed.xml''),
          LogInfo (''Found article: '' @ title example_article),
          LogError (Exception ''Ollama API error: Internal Server Error''),
          LogInfo ''Sleeping for 3 seconds...'', Sleep 3] @
         snd (main_loop [example_env completion_response] example_bot))"
    by simp
  with 1 2 show ?thesis by (simp add: rest t del: main_loop.simps)
qed

end
